theory Spec2Isabelle
  imports Main "HOL-Library.Word"
begin

section \<open>WpCrasher: the touch-pattern crash trigger (tools/WpCrasher/device.c)\<close>

text \<open>
  The driver watches touch interrupts and forces a bug check after a timed pattern of
  swipes; a power-setting callback connects and disconnects the interrupt with the
  monitor state. The three routines of device.c that carry this logic are embedded
  below: \<open>WpCrasherDoBugCheck\<close>, \<open>WpCrasherEvtInterruptIsr\<close> and
  \<open>WpCrasherOnPowerSettingsChange\<close>. Each takes the device extension and the values
  it reads from the kernel as arguments, and returns the device extension it leaves
  behind, the calls it made into the kernel, and how it completed.
\<close>

subsection \<open>Kernel types\<close>

type_synonym BOOLEAN = "8 word"
type_synonym ULONG = "32 word"
type_synonym ULONGLONG = "64 word"
type_synonym NTSTATUS = "32 word"
type_synonym GUID = "128 word"
type_synonym HANDLE = "64 word"

definition TRUE :: BOOLEAN where
  "TRUE = 1"

definition FALSE :: BOOLEAN where
  "FALSE = 0"

definition STATUS_SUCCESS :: NTSTATUS where
  "STATUS_SUCCESS = 0"

definition STATUS_INVALID_PARAMETER :: NTSTATUS where
  "STATUS_INVALID_PARAMETER = 0xC000000D"

text \<open>The bug check code of bugcodes.h.\<close>

definition MANUALLY_INITIATED_CRASH :: ULONG where
  "MANUALLY_INITIATED_CRASH = 0xE2"

text \<open>The power setting GUID of the monitor state, 02731015-4510-4526-99e6-e5a17ebd1aea.\<close>

definition GUID_MONITOR_POWER_ON :: GUID where
  "GUID_MONITOR_POWER_ON = 0x027310154510452699E6E5A17EBD1AEA"

text \<open>\<open>sizeof(ULONG)\<close>.\<close>

definition sizeof_ULONG :: ULONG where
  "sizeof_ULONG = 4"

subsection \<open>The macros of device.h\<close>

text \<open>
  device.c takes its thresholds from macros of device.h, which is not part of the
  sources at hand. The routines below take them as a parameter. Times are in the unit
  of \<open>KeQueryUnbiasedInterruptTime\<close>, 100 nanoseconds: the trace message of the ISR
  divides a time by 10000 to print milliseconds.
\<close>

record device_macros =
  INPUT_PATTERN_NUM_OF_SWIPES :: ULONG
  INPUT_PATTERN_MAX_PERIOD :: ULONGLONG
  SINGLE_SWIPE_MIN_PERIOD :: ULONGLONG
  SINGLE_SWIPE_MAX_PERIOD :: ULONGLONG
  SINGLE_SWIPE_MAX_INTERVAL :: ULONGLONG
  MONITOR_IS_ON :: ULONG

text \<open>
  Modelled from the spec: the values of the macros of device.h, which is missing. Four
  swipes, 60 s for the whole pattern, 5 s as the least swipe and rest, 0.2 s between
  two inputs of one swipe. \<open>SINGLE_SWIPE_MAX_PERIOD\<close> is one macro that bounds both the
  rest between two swipes and the length of a swipe; the comments of the ISR give
  "5 ~ 15 secs" for both, and the rest window of the spec is 5 s to 15 s, so it is
  15 s here.
\<close>

definition device_h :: device_macros where
  "device_h = \<lparr> INPUT_PATTERN_NUM_OF_SWIPES = 4,
                INPUT_PATTERN_MAX_PERIOD = 600000000,
                SINGLE_SWIPE_MIN_PERIOD = 50000000,
                SINGLE_SWIPE_MAX_PERIOD = 150000000,
                SINGLE_SWIPE_MAX_INTERVAL = 2000000,
                MONITOR_IS_ON = 1 \<rparr>"

subsection \<open>The device extension\<close>

text \<open>
  Modelled from the spec: the structure is declared in device.h, which is missing.
  These are the fields that device.c reads and writes, with the spelling of the
  source. The time stamps are \<open>ULONGLONG\<close> like the locals they are computed with,
  the count of swipes is \<open>ULONG\<close> (it is traced with \<open>%u\<close>), the flag is a
  \<open>BOOLEAN\<close> and the monitor state a \<open>ULONG\<close> like the value it is compared with.
\<close>

record DEVICE_EXTENSION =
  MonitorChangeNotificationHandle :: HANDLE
  InterruptObject :: HANDLE
  TimeStampInputPatternBegin :: ULONGLONG
  TimeStampSwipeBegin :: ULONGLONG
  TimeStampLastInterrupt :: ULONGLONG
  NumberOfSwipes :: ULONG
  SwipeThreholdReached :: BOOLEAN
  LastProcessedMonitorState :: ULONG

text \<open>The framework hands out the context zero-initialised.\<close>

definition zero_extension :: DEVICE_EXTENSION where
  "zero_extension = \<lparr> MonitorChangeNotificationHandle = 0,
                      InterruptObject = 0,
                      TimeStampInputPatternBegin = 0,
                      TimeStampSwipeBegin = 0,
                      TimeStampLastInterrupt = 0,
                      NumberOfSwipes = 0,
                      SwipeThreholdReached = 0,
                      LastProcessedMonitorState = 0 \<rparr>"

text \<open>
  A device extension in the middle of a pattern: begun at \<open>b\<close>, the current swipe begun
  at \<open>sb\<close>, the last interrupt at \<open>l\<close>, no swipe counted yet.
\<close>

definition in_pattern :: "ULONGLONG \<Rightarrow> ULONGLONG \<Rightarrow> ULONGLONG \<Rightarrow> DEVICE_EXTENSION" where
  "in_pattern b sb l = zero_extension\<lparr>TimeStampInputPatternBegin := b,
                                        TimeStampSwipeBegin := sb,
                                        TimeStampLastInterrupt := l\<rparr>"

subsection \<open>Calls into the kernel, and completion\<close>

text \<open>
  The calls with an effect outside the device extension, in the order made. Trace
  messages are left out. A routine either returns a value or, after
  \<open>KeBugCheckEx\<close>, never returns.
\<close>

datatype effect =
    DebugBreak
  | KeBugCheckEx ULONG ULONGLONG ULONGLONG ULONGLONG ULONGLONG
  | WdfInterruptReportActive HANDLE
  | WdfInterruptReportInactive HANDLE

datatype 'a completion = Returned 'a | NeverReturns

subsection \<open>WpCrasherDoBugCheck\<close>

text \<open>\<open>#define BOOLIFY(expr) (!!(expr))\<close>\<close>

definition BOOLIFY :: "BOOLEAN \<Rightarrow> BOOLEAN" where
  "BOOLIFY expr = (if expr = 0 then 0 else 1)"

text \<open>
  \<open>#define IS_DEBUGGER_ATTACHED() (BOOLIFY(KD_DEBUGGER_NOT_PRESENT) == FALSE ? TRUE : FALSE)\<close>,
  with the value read from \<open>KD_DEBUGGER_NOT_PRESENT\<close> as argument.
\<close>

definition IS_DEBUGGER_ATTACHED :: "BOOLEAN \<Rightarrow> BOOLEAN" where
  "IS_DEBUGGER_ATTACHED kd_debugger_not_present =
     (if BOOLIFY kd_debugger_not_present = FALSE then TRUE else FALSE)"

definition WpCrasherDoBugCheck :: "BOOLEAN \<Rightarrow> effect list \<times> unit completion" where
  "WpCrasherDoBugCheck kd_debugger_not_present =
     (if IS_DEBUGGER_ATTACHED kd_debugger_not_present \<noteq> FALSE
      then ([DebugBreak], Returned ())
      else ([KeBugCheckEx MANUALLY_INITIATED_CRASH 1 0 0 0], NeverReturns))"

subsection \<open>WpCrasherEvtInterruptIsr\<close>

type_synonym isr_result = "DEVICE_EXTENSION \<times> effect list \<times> BOOLEAN completion"

text \<open>The label \<open>Exit\<close>: \<open>return FALSE\<close>.\<close>

definition isr_Exit :: "DEVICE_EXTENSION \<Rightarrow> isr_result" where
  "isr_Exit devContext = (devContext, [], Returned FALSE)"

text \<open>
  The end of the ISR, where the swipe is counted (lines 262 to 292). When the count
  reaches \<open>INPUT_PATTERN_NUM_OF_SWIPES\<close> the bug check routine is called, and the
  begin of the pattern is cleared only if that call returns. \<open>NT_ASSERT\<close> is
  compiled out of a free build and left out here.
\<close>

definition isr_count_swipe :: "device_macros \<Rightarrow> BOOLEAN \<Rightarrow> DEVICE_EXTENSION \<Rightarrow> isr_result" where
  "isr_count_swipe cfg kd devContext =
     (let devContext = devContext\<lparr>NumberOfSwipes := NumberOfSwipes devContext + 1,
                                  SwipeThreholdReached := TRUE\<rparr>
      in if NumberOfSwipes devContext = INPUT_PATTERN_NUM_OF_SWIPES cfg
         then (case WpCrasherDoBugCheck kd of
                 (effs, Returned u) \<Rightarrow>
                   (devContext\<lparr>TimeStampInputPatternBegin := 0\<rparr>, effs, Returned FALSE)
               | (effs, NeverReturns) \<Rightarrow> (devContext, effs, NeverReturns))
         else isr_Exit devContext)"

text \<open>
  The ISR from the test of the swipe time on (lines 247 to 260), with the local
  \<open>swippingTime\<close> as it stands there.
\<close>

definition isr_swipe :: "device_macros \<Rightarrow> BOOLEAN \<Rightarrow> DEVICE_EXTENSION \<Rightarrow> ULONGLONG \<Rightarrow> isr_result" where
  "isr_swipe cfg kd devContext swippingTime =
     (if swippingTime > SINGLE_SWIPE_MAX_PERIOD cfg
      then isr_Exit (devContext\<lparr>TimeStampInputPatternBegin := 0\<rparr>)
      else if swippingTime < SINGLE_SWIPE_MIN_PERIOD cfg
                \<or> SwipeThreholdReached devContext = TRUE
      then isr_Exit devContext
      else isr_count_swipe cfg kd devContext)"

text \<open>
  The whole ISR. \<open>currentTime\<close> is what \<open>KeQueryUnbiasedInterruptTime\<close> returned and
  \<open>kd\<close> what \<open>KD_DEBUGGER_NOT_PRESENT\<close> holds. The times are unsigned 64-bit values
  and the subtractions wrap.
\<close>

definition WpCrasherEvtInterruptIsr ::
  "device_macros \<Rightarrow> BOOLEAN \<Rightarrow> ULONGLONG \<Rightarrow> DEVICE_EXTENSION \<Rightarrow> isr_result" where
  "WpCrasherEvtInterruptIsr cfg kd currentTime devContext =
     (if TimeStampInputPatternBegin devContext = 0
      then isr_Exit (devContext\<lparr>TimeStampInputPatternBegin := currentTime,
                                 TimeStampSwipeBegin := currentTime,
                                 TimeStampLastInterrupt := currentTime,
                                 NumberOfSwipes := 0,
                                 SwipeThreholdReached := FALSE\<rparr>)
      else if currentTime - TimeStampInputPatternBegin devContext
                > INPUT_PATTERN_MAX_PERIOD cfg
      then isr_Exit (devContext\<lparr>TimeStampInputPatternBegin := 0\<rparr>)
      else
        let stoppedTime = currentTime - TimeStampLastInterrupt devContext;
            swippingTime = TimeStampLastInterrupt devContext - TimeStampSwipeBegin devContext;
            devContext = devContext\<lparr>TimeStampLastInterrupt := currentTime\<rparr>
        in if stoppedTime > SINGLE_SWIPE_MAX_INTERVAL cfg
           then
             if stoppedTime < SINGLE_SWIPE_MIN_PERIOD cfg
                  \<or> stoppedTime > SINGLE_SWIPE_MAX_PERIOD cfg
             then isr_Exit (devContext\<lparr>TimeStampInputPatternBegin := 0\<rparr>)
             else isr_swipe cfg kd
                    (devContext\<lparr>TimeStampSwipeBegin := currentTime,
                                 SwipeThreholdReached := FALSE\<rparr>) 0
           else isr_swipe cfg kd devContext swippingTime)"

text \<open>
  The ISR called once for each interrupt of a list, in order, each with its time and
  the debugger flag of that moment. The run ends where a call never returns.
\<close>

fun isr_run ::
  "device_macros \<Rightarrow> (ULONGLONG \<times> BOOLEAN) list \<Rightarrow> DEVICE_EXTENSION
     \<Rightarrow> DEVICE_EXTENSION \<times> effect list \<times> unit completion" where
  "isr_run cfg [] devContext = (devContext, [], Returned ())"
| "isr_run cfg ((currentTime, kd) # rest) devContext =
     (case WpCrasherEvtInterruptIsr cfg kd currentTime devContext of
        (devContext', effs, NeverReturns) \<Rightarrow> (devContext', effs, NeverReturns)
      | (devContext', effs, Returned claimed) \<Rightarrow>
          (case isr_run cfg rest devContext' of
             (devContext'', effs', c) \<Rightarrow> (devContext'', effs @ effs', c)))"

subsection \<open>WpCrasherOnPowerSettingsChange\<close>

text \<open>
  \<open>SettingGuid\<close> is the GUID pointed to. \<open>Value\<close> is \<open>None\<close> for a null pointer and
  otherwise the \<open>ULONG\<close> read through it. \<open>CbContext\<close> is \<open>None\<close> for a null pointer
  and otherwise the device extension of the device it is the handle of; the routine
  returns it as it leaves it.
\<close>

definition WpCrasherOnPowerSettingsChange ::
  "device_macros \<Rightarrow> GUID \<Rightarrow> ULONG option \<Rightarrow> ULONG \<Rightarrow> DEVICE_EXTENSION option
     \<Rightarrow> NTSTATUS \<times> DEVICE_EXTENSION option \<times> effect list" where
  "WpCrasherOnPowerSettingsChange cfg SettingGuid Value ValueLength CbContext =
     (if SettingGuid \<noteq> GUID_MONITOR_POWER_ON
      then (STATUS_SUCCESS, CbContext, [])
      else
        (case (Value, CbContext) of
           (Some monitorState, Some devContext) \<Rightarrow>
             if ValueLength \<noteq> sizeof_ULONG
             then (STATUS_INVALID_PARAMETER, CbContext, [])
             else if LastProcessedMonitorState devContext = monitorState
             then (STATUS_SUCCESS, CbContext, [])
             else
               (STATUS_SUCCESS,
                Some (devContext\<lparr>LastProcessedMonitorState := monitorState\<rparr>),
                [if monitorState = MONITOR_IS_ON cfg
                 then WdfInterruptReportActive (InterruptObject devContext)
                 else WdfInterruptReportInactive (InterruptObject devContext)])
         | _ \<Rightarrow> (STATUS_INVALID_PARAMETER, CbContext, [])))"

text \<open>
  The callback called once for each monitor state of a list, in order, each as a
  well-formed notification of the monitor setting for the same device.
\<close>

fun monitor_run ::
  "device_macros \<Rightarrow> ULONG list \<Rightarrow> DEVICE_EXTENSION \<Rightarrow> DEVICE_EXTENSION \<times> effect list" where
  "monitor_run cfg [] devContext = (devContext, [])"
| "monitor_run cfg (monitorState # rest) devContext =
     (case WpCrasherOnPowerSettingsChange cfg GUID_MONITOR_POWER_ON (Some monitorState)
             sizeof_ULONG (Some devContext) of
        (status, Some devContext', effs) \<Rightarrow>
          (case monitor_run cfg rest devContext' of
             (devContext'', effs') \<Rightarrow> (devContext'', effs @ effs'))
      | (status, None, effs) \<Rightarrow> (devContext, effs))"

subsection \<open>Patterns of interrupts\<close>

text \<open>The interrupts at the given times, with the debugger flag the same at each.\<close>

fun interrupts :: "BOOLEAN \<Rightarrow> ULONGLONG list \<Rightarrow> (ULONGLONG \<times> BOOLEAN) list" where
  "interrupts kd [] = []"
| "interrupts kd (t # ts) = (t, kd) # interrupts kd ts"

text \<open>
  Times that do not decrease (and so do not wrap) and lie at most \<open>g\<close> ticks apart,
  each from the next.
\<close>

fun gaps_within :: "nat \<Rightarrow> ULONGLONG list \<Rightarrow> bool" where
  "gaps_within g (t # u # ts) =
     (unat t \<le> unat u \<and> unat u - unat t \<le> g \<and> gaps_within g (u # ts))"
| "gaps_within g ts = True"

text \<open>
  A swipe: interrupts at most 0.2 s apart that span more than 5 s and less than 10 s
  from the first to the last.
\<close>

definition swipe :: "ULONGLONG list \<Rightarrow> bool" where
  "swipe ts = (ts \<noteq> [] \<and> gaps_within 2000000 ts
               \<and> 50000000 < unat (last ts) - unat (hd ts)
               \<and> unat (last ts) - unat (hd ts) < 100000000)"

text \<open>The rest between two swipes: more than 5 s and less than 15 s.\<close>

definition rest_between :: "ULONGLONG list \<Rightarrow> ULONGLONG list \<Rightarrow> bool" where
  "rest_between a b = (50000000 < unat (hd b) - unat (last a)
                       \<and> unat (hd b) - unat (last a) < 150000000)"

text \<open>
  The pattern: four swipes with a rest between each two, the last interrupt at most
  60 s after the first. The first time is not 0, the value that marks the idle state.
\<close>

definition four_swipes ::
  "ULONGLONG list \<Rightarrow> ULONGLONG list \<Rightarrow> ULONGLONG list \<Rightarrow> ULONGLONG list \<Rightarrow> bool" where
  "four_swipes w1 w2 w3 w4 =
     (0 < unat (hd w1)
      \<and> swipe w1 \<and> swipe w2 \<and> swipe w3 \<and> swipe w4
      \<and> rest_between w1 w2 \<and> rest_between w2 w3 \<and> rest_between w3 w4
      \<and> unat (last w4) - unat (hd w1) \<le> 600000000)"

text \<open>The time of the last interrupt but one.\<close>

definition before_last :: "ULONGLONG list \<Rightarrow> ULONGLONG" where
  "before_last ts = last (butlast ts)"

text \<open>
  The ISR measures a swipe up to the interrupt before the current one. A swipe reaches
  the threshold when its last interrupt but one is 5 s or more after its first: then
  some interrupt of the swipe finds 5 s measured.
\<close>

definition reaches_threshold :: "ULONGLONG list \<Rightarrow> bool" where
  "reaches_threshold w = (50000000 \<le> unat (before_last w) - unat (hd w))"

text \<open>The macros with the values of \<open>device_h\<close>; \<open>MONITOR_IS_ON\<close> is free.\<close>

definition macros_as_documented :: "device_macros \<Rightarrow> bool" where
  "macros_as_documented cfg =
     (INPUT_PATTERN_NUM_OF_SWIPES cfg = 4 \<and> INPUT_PATTERN_MAX_PERIOD cfg = 600000000
      \<and> SINGLE_SWIPE_MIN_PERIOD cfg = 50000000 \<and> SINGLE_SWIPE_MAX_PERIOD cfg = 150000000
      \<and> SINGLE_SWIPE_MAX_INTERVAL cfg = 2000000)"

text \<open>
  What holds of the count of swipes between two calls: it is below 4 while a pattern
  is under way, and at most 4 in the idle state.
\<close>

definition swipes_inv :: "DEVICE_EXTENSION \<Rightarrow> bool" where
  "swipes_inv d = (if TimeStampInputPatternBegin d = 0 then NumberOfSwipes d \<le> 4
                   else NumberOfSwipes d < 4)"

text \<open>
  Two concrete patterns. \<open>ticks n t step\<close> are \<open>n\<close> times from \<open>t\<close> on, \<open>step\<close> apart.
  A long swipe is 28 interrupts 0.2 s apart, 5.4 s in all; a short one is 27
  interrupts 0.196 s apart, 5.096 s in all, its last interrupt but one at 4.9 s. Both
  patterns begin at 1 s and rest 7 s between the swipes.
\<close>

fun ticks :: "nat \<Rightarrow> ULONGLONG \<Rightarrow> ULONGLONG \<Rightarrow> ULONGLONG list" where
  "ticks 0 t step = []"
| "ticks (Suc n) t step = t # ticks n (t + step) step"

definition long_swipe :: "ULONGLONG \<Rightarrow> ULONGLONG list" where
  "long_swipe t = ticks 28 t 2000000"

definition short_swipe :: "ULONGLONG \<Rightarrow> ULONGLONG list" where
  "short_swipe t = ticks 27 t 1960000"

definition four_long_swipes :: "ULONGLONG list" where
  "four_long_swipes = long_swipe 10000000 @ long_swipe 134000000
                        @ long_swipe 258000000 @ long_swipe 382000000"

definition four_short_swipes :: "ULONGLONG list" where
  "four_short_swipes = short_swipe 10000000 @ short_swipe 130960000
                         @ short_swipe 251920000 @ short_swipe 372880000"

section \<open>The Fatal-Stop Trigger\<close>

text \<open>
  C3. The trigger reads the debugger flag and takes one of two branches, never both:
  with a debugger attached (the flag \<open>KD_DEBUGGER_NOT_PRESENT\<close> is 0) its only effect
  is the breakpoint and it returns; with none attached its only effect is
  \<open>KeBugCheckEx(MANUALLY_INITIATED_CRASH, 1, 0, 0, 0)\<close> and it never returns.
\<close>

theorem WpCrasherDoBugCheck_branches:
  "IS_DEBUGGER_ATTACHED kd \<in> {TRUE, FALSE} \<and> TRUE \<noteq> FALSE
   \<and> (IS_DEBUGGER_ATTACHED kd = TRUE) = (kd = 0)
   \<and> (IS_DEBUGGER_ATTACHED kd = TRUE \<longrightarrow>
        WpCrasherDoBugCheck kd = ([DebugBreak], Returned ()))
   \<and> (IS_DEBUGGER_ATTACHED kd = FALSE \<longrightarrow>
        WpCrasherDoBugCheck kd
          = ([KeBugCheckEx MANUALLY_INITIATED_CRASH 1 0 0 0], NeverReturns))"
  by (simp add: WpCrasherDoBugCheck_def IS_DEBUGGER_ATTACHED_def BOOLIFY_def TRUE_def
      FALSE_def)

theorem WpCrasherDoBugCheck_branches_witness:
  "WpCrasherDoBugCheck 0 = ([DebugBreak], Returned ())
   \<and> WpCrasherDoBugCheck 1 = ([KeBugCheckEx MANUALLY_INITIATED_CRASH 1 0 0 0], NeverReturns)"
  using WpCrasherDoBugCheck_branches [of 0] WpCrasherDoBugCheck_branches [of 1]
  by (simp add: IS_DEBUGGER_ATTACHED_def BOOLIFY_def TRUE_def FALSE_def)

section \<open>The interrupt service routine, one call\<close>

text \<open>The paths of one call, as equations under their branch conditions.\<close>

lemma BOOLEAN_distinct: "FALSE \<noteq> TRUE" "TRUE \<noteq> FALSE"
  by (simp_all add: TRUE_def FALSE_def)

lemma device_h_simps:
  "INPUT_PATTERN_NUM_OF_SWIPES device_h = 4"
  "INPUT_PATTERN_MAX_PERIOD device_h = 600000000"
  "SINGLE_SWIPE_MIN_PERIOD device_h = 50000000"
  "SINGLE_SWIPE_MAX_PERIOD device_h = 150000000"
  "SINGLE_SWIPE_MAX_INTERVAL device_h = 2000000"
  "MONITOR_IS_ON device_h = 1"
  by (simp_all add: device_h_def)

lemma in_pattern_simps:
  "TimeStampInputPatternBegin (in_pattern b sb l) = b"
  "TimeStampSwipeBegin (in_pattern b sb l) = sb"
  "TimeStampLastInterrupt (in_pattern b sb l) = l"
  "NumberOfSwipes (in_pattern b sb l) = 0"
  "SwipeThreholdReached (in_pattern b sb l) = FALSE"
  by (simp_all add: in_pattern_def zero_extension_def FALSE_def)

lemma isr_cold_start:
  "TimeStampInputPatternBegin devContext = 0 \<Longrightarrow>
   WpCrasherEvtInterruptIsr cfg kd currentTime devContext
     = (devContext\<lparr>TimeStampInputPatternBegin := currentTime,
                     TimeStampSwipeBegin := currentTime,
                     TimeStampLastInterrupt := currentTime,
                     NumberOfSwipes := 0,
                     SwipeThreholdReached := FALSE\<rparr>, [], Returned FALSE)"
  by (simp add: WpCrasherEvtInterruptIsr_def isr_Exit_def)

lemma isr_same_swipe:
  "TimeStampInputPatternBegin devContext \<noteq> 0 \<Longrightarrow>
   currentTime - TimeStampInputPatternBegin devContext \<le> INPUT_PATTERN_MAX_PERIOD cfg \<Longrightarrow>
   currentTime - TimeStampLastInterrupt devContext \<le> SINGLE_SWIPE_MAX_INTERVAL cfg \<Longrightarrow>
   WpCrasherEvtInterruptIsr cfg kd currentTime devContext
     = isr_swipe cfg kd (devContext\<lparr>TimeStampLastInterrupt := currentTime\<rparr>)
         (TimeStampLastInterrupt devContext - TimeStampSwipeBegin devContext)"
  by (simp add: WpCrasherEvtInterruptIsr_def Let_def leD)

lemma isr_swipe_short:
  "swippingTime < SINGLE_SWIPE_MIN_PERIOD cfg \<or> SwipeThreholdReached devContext = TRUE \<Longrightarrow>
   swippingTime \<le> SINGLE_SWIPE_MAX_PERIOD cfg \<Longrightarrow>
   isr_swipe cfg kd devContext swippingTime = (devContext, [], Returned FALSE)"
  by (simp add: isr_swipe_def isr_Exit_def leD)

lemma isr_count_swipe_eq:
  "isr_count_swipe cfg kd devContext
     = (if NumberOfSwipes devContext + 1 = INPUT_PATTERN_NUM_OF_SWIPES cfg
        then if IS_DEBUGGER_ATTACHED kd = TRUE
             then (devContext\<lparr>NumberOfSwipes := NumberOfSwipes devContext + 1,
                               SwipeThreholdReached := TRUE,
                               TimeStampInputPatternBegin := 0\<rparr>, [DebugBreak], Returned FALSE)
             else (devContext\<lparr>NumberOfSwipes := NumberOfSwipes devContext + 1,
                               SwipeThreholdReached := TRUE\<rparr>,
                   [KeBugCheckEx MANUALLY_INITIATED_CRASH 1 0 0 0], NeverReturns)
        else (devContext\<lparr>NumberOfSwipes := NumberOfSwipes devContext + 1,
                          SwipeThreholdReached := TRUE\<rparr>, [], Returned FALSE))"
  by (simp add: isr_count_swipe_def isr_Exit_def Let_def WpCrasherDoBugCheck_def
      IS_DEBUGGER_ATTACHED_def BOOLEAN_distinct)

lemma isr_swipe_counted:
  "SINGLE_SWIPE_MIN_PERIOD cfg \<le> swippingTime \<Longrightarrow>
   swippingTime \<le> SINGLE_SWIPE_MAX_PERIOD cfg \<Longrightarrow>
   SwipeThreholdReached devContext \<noteq> TRUE \<Longrightarrow>
   isr_swipe cfg kd devContext swippingTime = isr_count_swipe cfg kd devContext"
  by (simp add: isr_swipe_def leD)

lemma isr_swipe_cases:
  "isr_swipe cfg kd d w = (d\<lparr>TimeStampInputPatternBegin := 0\<rparr>, [], Returned FALSE)
   \<or> isr_swipe cfg kd d w = (d, [], Returned FALSE)
   \<or> isr_swipe cfg kd d w = isr_count_swipe cfg kd d"
  by (simp add: isr_swipe_def isr_Exit_def)

lemma isr_cases:
  assumes "TimeStampInputPatternBegin d \<noteq> 0"
  shows "(\<exists>d1. WpCrasherEvtInterruptIsr cfg kd t d = (d1, [], Returned FALSE)
            \<and> NumberOfSwipes d1 = NumberOfSwipes d)
       \<or> (\<exists>d1. WpCrasherEvtInterruptIsr cfg kd t d = isr_count_swipe cfg kd d1
            \<and> NumberOfSwipes d1 = NumberOfSwipes d
            \<and> TimeStampInputPatternBegin d1 = TimeStampInputPatternBegin d)"
proof -
  have sw: "(\<exists>d1. isr_swipe cfg kd d0 w = (d1, [], Returned FALSE)
            \<and> NumberOfSwipes d1 = NumberOfSwipes d)
       \<or> (\<exists>d1. isr_swipe cfg kd d0 w = isr_count_swipe cfg kd d1
            \<and> NumberOfSwipes d1 = NumberOfSwipes d
            \<and> TimeStampInputPatternBegin d1 = TimeStampInputPatternBegin d)"
    if "NumberOfSwipes d0 = NumberOfSwipes d"
       "TimeStampInputPatternBegin d0 = TimeStampInputPatternBegin d" for d0 w
    using isr_swipe_cases [of cfg kd d0 w] that by auto
  show ?thesis
    using assms sw [of "d\<lparr>TimeStampLastInterrupt := t\<rparr>"]
      sw [of "d\<lparr>TimeStampLastInterrupt := t, TimeStampSwipeBegin := t,
                SwipeThreholdReached := FALSE\<rparr>" 0]
    by (simp add: WpCrasherEvtInterruptIsr_def isr_Exit_def Let_def)
qed

text \<open>
  C9. Every call of the ISR that returns, returns \<open>FALSE\<close> (not claimed). The one
  call that does not return is the one that counts the last swipe of the pattern with
  no debugger attached: it ends in the bug check. With a debugger attached every call
  returns \<open>FALSE\<close>.
\<close>

theorem isr_never_claims:
  "(\<exists>d effs. WpCrasherEvtInterruptIsr cfg kd currentTime devContext
                = (d, effs, Returned FALSE))
   \<or> (IS_DEBUGGER_ATTACHED kd = FALSE
      \<and> (\<exists>d. WpCrasherEvtInterruptIsr cfg kd currentTime devContext
                = (d, [KeBugCheckEx MANUALLY_INITIATED_CRASH 1 0 0 0], NeverReturns)
             \<and> NumberOfSwipes d = INPUT_PATTERN_NUM_OF_SWIPES cfg))"
proof (cases "TimeStampInputPatternBegin devContext = 0")
  case True
  then show ?thesis
    by (simp add: isr_cold_start)
next
  case False
  have "isr_count_swipe cfg kd d1 = (d1\<lparr>NumberOfSwipes := NumberOfSwipes d1 + 1,
            SwipeThreholdReached := TRUE\<rparr>,
          [KeBugCheckEx MANUALLY_INITIATED_CRASH 1 0 0 0], NeverReturns)
        \<and> IS_DEBUGGER_ATTACHED kd = FALSE
        \<and> NumberOfSwipes d1 + 1 = INPUT_PATTERN_NUM_OF_SWIPES cfg"
    if "\<forall>d effs. isr_count_swipe cfg kd d1 \<noteq> (d, effs, Returned FALSE)" for d1
    using that by (simp add: isr_count_swipe_eq IS_DEBUGGER_ATTACHED_def split: if_splits)
  then show ?thesis
    using isr_cases [OF False, of cfg kd currentTime] by fastforce
qed

theorem isr_never_claims_witness:
  "snd (snd (WpCrasherEvtInterruptIsr device_h 0 5 zero_extension)) = Returned FALSE"
  using isr_never_claims [where cfg = device_h and kd = 0 and currentTime = 5
      and devContext = zero_extension]
  by (auto simp add: IS_DEBUGGER_ATTACHED_def BOOLIFY_def TRUE_def FALSE_def)

text \<open>
  C6. On a call that is not a cold start and whose time is more than
  \<open>INPUT_PATTERN_MAX_PERIOD\<close> (60 s in \<open>device_h\<close>) after the begin of the pattern, the
  ISR sets \<open>TimeStampInputPatternBegin\<close> to 0 and returns \<open>FALSE\<close>: every other field,
  \<open>TimeStampLastInterrupt\<close> and \<open>NumberOfSwipes\<close> among them, is as before, and no call
  is made.
\<close>

theorem isr_overall_timeout:
  "TimeStampInputPatternBegin devContext \<noteq> 0 \<Longrightarrow>
   currentTime - TimeStampInputPatternBegin devContext > INPUT_PATTERN_MAX_PERIOD cfg \<Longrightarrow>
   WpCrasherEvtInterruptIsr cfg kd currentTime devContext
     = (devContext\<lparr>TimeStampInputPatternBegin := 0\<rparr>, [], Returned FALSE)"
  by (simp add: WpCrasherEvtInterruptIsr_def isr_Exit_def)

theorem isr_overall_timeout_witness:
  "WpCrasherEvtInterruptIsr device_h 1 600000002 (in_pattern 1 1 600000001)
     = ((in_pattern 1 1 600000001)\<lparr>TimeStampInputPatternBegin := 0\<rparr>, [], Returned FALSE)"
proof -
  have a: "TimeStampInputPatternBegin (in_pattern 1 1 600000001) \<noteq> 0"
    by (simp add: in_pattern_simps)
  have b: "600000002 - TimeStampInputPatternBegin (in_pattern 1 1 600000001)
             > INPUT_PATTERN_MAX_PERIOD device_h"
    by (simp add: in_pattern_simps device_h_simps)
  show ?thesis
    by (rule isr_overall_timeout [OF a b])
qed

text \<open>
  C2. With the macros at 0.2 s, 5 s and 15 s: on a call that is not a cold start and
  not past the overall timeout, where the time since the last interrupt is more than
  0.2 s, the ISR gives the attempt up (\<open>TimeStampInputPatternBegin\<close> is 0) and returns
  exactly when that time is less than 5 s or more than 15 s; from 5 s to 15 s, bounds
  included, it begins a new swipe at the current time with the threshold flag
  cleared, and the swipe time 0 lets it return at once. At 0.2 s or less the swipe
  goes on: its begin is as before.
\<close>

theorem isr_rest_window:
  assumes "SINGLE_SWIPE_MAX_INTERVAL cfg = 2000000"
    and "SINGLE_SWIPE_MIN_PERIOD cfg = 50000000"
    and "SINGLE_SWIPE_MAX_PERIOD cfg = 150000000"
    and "TimeStampInputPatternBegin devContext \<noteq> 0"
    and "\<not> currentTime - TimeStampInputPatternBegin devContext > INPUT_PATTERN_MAX_PERIOD cfg"
    and "stoppedTime = currentTime - TimeStampLastInterrupt devContext"
  shows "(2000000 < stoppedTime \<longrightarrow>
            WpCrasherEvtInterruptIsr cfg kd currentTime devContext
              = (if 50000000 \<le> stoppedTime \<and> stoppedTime \<le> 150000000
                 then (devContext\<lparr>TimeStampLastInterrupt := currentTime,
                                   TimeStampSwipeBegin := currentTime,
                                   SwipeThreholdReached := FALSE\<rparr>, [], Returned FALSE)
                 else (devContext\<lparr>TimeStampLastInterrupt := currentTime,
                                   TimeStampInputPatternBegin := 0\<rparr>, [], Returned FALSE))
            \<and> (TimeStampInputPatternBegin
                  (fst (WpCrasherEvtInterruptIsr cfg kd currentTime devContext)) = 0)
                = (stoppedTime < 50000000 \<or> 150000000 < stoppedTime))
       \<and> (stoppedTime \<le> 2000000 \<longrightarrow>
            WpCrasherEvtInterruptIsr cfg kd currentTime devContext
              = isr_swipe cfg kd (devContext\<lparr>TimeStampLastInterrupt := currentTime\<rparr>)
                  (TimeStampLastInterrupt devContext - TimeStampSwipeBegin devContext)
            \<and> TimeStampSwipeBegin
                 (fst (WpCrasherEvtInterruptIsr cfg kd currentTime devContext))
                = TimeStampSwipeBegin devContext)"
  using assms
  by (auto simp add: WpCrasherEvtInterruptIsr_def isr_swipe_def isr_Exit_def Let_def
      isr_count_swipe_eq)

theorem isr_rest_window_witness:
  "WpCrasherEvtInterruptIsr device_h 1 150000001 (in_pattern 1 1 1)
     = ((in_pattern 1 1 1)\<lparr>TimeStampLastInterrupt := 150000001,
                            TimeStampSwipeBegin := 150000001,
                            SwipeThreholdReached := FALSE\<rparr>, [], Returned FALSE)
   \<and> WpCrasherEvtInterruptIsr device_h 1 150000002 (in_pattern 1 1 1)
     = ((in_pattern 1 1 1)\<lparr>TimeStampLastInterrupt := 150000002,
                            TimeStampInputPatternBegin := 0\<rparr>, [], Returned FALSE)
   \<and> TimeStampSwipeBegin (fst (WpCrasherEvtInterruptIsr device_h 1 2000001 (in_pattern 1 1 1)))
     = 1"
proof -
  have a: "TimeStampInputPatternBegin (in_pattern 1 1 1) \<noteq> 0"
    by (simp add: in_pattern_simps)
  have b: "\<not> t - TimeStampInputPatternBegin (in_pattern 1 1 1) > INPUT_PATTERN_MAX_PERIOD device_h"
    if "t \<in> {150000001, 150000002, 2000001}" for t :: ULONGLONG
    using that by (auto simp add: in_pattern_simps device_h_simps)
  have c: "g = (g + 1) - TimeStampLastInterrupt (in_pattern 1 1 1)" for g :: ULONGLONG
    by (simp add: in_pattern_simps)
  note w = isr_rest_window [OF device_h_simps(5) device_h_simps(3) device_h_simps(4) a b c,
      where kd = 1]
  have "TimeStampSwipeBegin (fst (WpCrasherEvtInterruptIsr device_h 1 2000001 (in_pattern 1 1 1)))
          = 1"
    using w [of 2000000]
    by (simp add: in_pattern_simps isr_swipe_def isr_Exit_def device_h_simps)
  then show ?thesis
    using w [of 150000000] w [of 150000001]
    by (simp add: in_pattern_simps)
qed

text \<open>
  C8, as amended. With \<open>SINGLE_SWIPE_MIN_PERIOD\<close> at 5 s: on a call that is not a cold
  start, not past the overall timeout, within \<open>SINGLE_SWIPE_MAX_INTERVAL\<close> of the last
  interrupt, with the threshold flag not set and the swipe time (the last interrupt
  minus the begin of the swipe) not above \<open>SINGLE_SWIPE_MAX_PERIOD\<close>: a swipe time below
  5 s only records the time of the interrupt, and a swipe time of 5 s or more, exactly
  5 s included, counts the swipe and sets the flag.
\<close>

theorem isr_swipe_threshold:
  assumes "SINGLE_SWIPE_MIN_PERIOD cfg = 50000000"
    and "TimeStampInputPatternBegin devContext \<noteq> 0"
    and "\<not> currentTime - TimeStampInputPatternBegin devContext > INPUT_PATTERN_MAX_PERIOD cfg"
    and "\<not> currentTime - TimeStampLastInterrupt devContext > SINGLE_SWIPE_MAX_INTERVAL cfg"
    and "swippingTime = TimeStampLastInterrupt devContext - TimeStampSwipeBegin devContext"
    and "\<not> swippingTime > SINGLE_SWIPE_MAX_PERIOD cfg"
    and "SwipeThreholdReached devContext = FALSE"
  shows "(swippingTime < 50000000 \<longrightarrow>
            WpCrasherEvtInterruptIsr cfg kd currentTime devContext
              = (devContext\<lparr>TimeStampLastInterrupt := currentTime\<rparr>, [], Returned FALSE))
       \<and> (50000000 \<le> swippingTime \<longrightarrow>
            NumberOfSwipes (fst (WpCrasherEvtInterruptIsr cfg kd currentTime devContext))
              = NumberOfSwipes devContext + 1
            \<and> SwipeThreholdReached
                 (fst (WpCrasherEvtInterruptIsr cfg kd currentTime devContext)) = TRUE)"
proof -
  have r: "WpCrasherEvtInterruptIsr cfg kd currentTime devContext
     = isr_swipe cfg kd (devContext\<lparr>TimeStampLastInterrupt := currentTime\<rparr>) swippingTime"
    using assms(2-5) by (simp add: isr_same_swipe not_less)
  have le: "swippingTime \<le> SINGLE_SWIPE_MAX_PERIOD cfg"
    using assms(6) by (simp add: not_less)
  have nr: "SwipeThreholdReached (devContext\<lparr>TimeStampLastInterrupt := currentTime\<rparr>) \<noteq> TRUE"
    using assms(7) by (simp add: BOOLEAN_distinct)
  show ?thesis
  proof (intro conjI impI)
    assume "swippingTime < 50000000"
    then show "WpCrasherEvtInterruptIsr cfg kd currentTime devContext
              = (devContext\<lparr>TimeStampLastInterrupt := currentTime\<rparr>, [], Returned FALSE)"
      unfolding r using le assms(1) by (simp add: isr_swipe_short)
  next
    assume a: "50000000 \<le> swippingTime"
    show "NumberOfSwipes (fst (WpCrasherEvtInterruptIsr cfg kd currentTime devContext))
              = NumberOfSwipes devContext + 1"
      unfolding r using a le nr assms(1) by (simp add: isr_swipe_counted isr_count_swipe_eq)
    show "SwipeThreholdReached
                 (fst (WpCrasherEvtInterruptIsr cfg kd currentTime devContext)) = TRUE"
      unfolding r using a le nr assms(1) by (simp add: isr_swipe_counted isr_count_swipe_eq)
  qed
qed

theorem isr_swipe_threshold_witness:
  "WpCrasherEvtInterruptIsr device_h 1 50000001 (in_pattern 1 1 50000000)
     = ((in_pattern 1 1 50000000)\<lparr>TimeStampLastInterrupt := 50000001\<rparr>, [], Returned FALSE)
   \<and> NumberOfSwipes (fst (WpCrasherEvtInterruptIsr device_h 1 50000003 (in_pattern 1 1 50000002)))
     = 1"
proof -
  have a: "TimeStampInputPatternBegin (in_pattern 1 1 l) \<noteq> 0" for l
    by (simp add: in_pattern_simps)
  have b: "\<not> (l + 1) - TimeStampInputPatternBegin (in_pattern 1 1 l)
              > INPUT_PATTERN_MAX_PERIOD device_h"
    if "l \<in> {50000000, 50000002}" for l :: ULONGLONG
    using that by (auto simp add: in_pattern_simps device_h_simps)
  have c: "\<not> (l + 1) - TimeStampLastInterrupt (in_pattern 1 1 l)
              > SINGLE_SWIPE_MAX_INTERVAL device_h" for l :: ULONGLONG
    by (simp add: in_pattern_simps device_h_simps)
  have d: "l - 1 = TimeStampLastInterrupt (in_pattern 1 1 l)
                     - TimeStampSwipeBegin (in_pattern 1 1 l)" for l :: ULONGLONG
    by (simp add: in_pattern_simps)
  have e: "\<not> l - 1 > SINGLE_SWIPE_MAX_PERIOD device_h"
    if "l \<in> {50000000, 50000002}" for l :: ULONGLONG
    using that by (auto simp add: device_h_simps)
  note w = isr_swipe_threshold [OF device_h_simps(3) a b c d e in_pattern_simps(5),
      where kd = 1]
  show ?thesis
    using w [of 50000000] w [of 50000002]
    by (simp add: in_pattern_simps)
qed

text \<open>
  The claim as first stated, that a swipe time of exactly 5 s does not count yet,
  fails: the swipe began at time 1, the last interrupt was at 50000001, 5 s later to
  the tick, and the next interrupt, one tick on, counts the swipe.
\<close>

theorem isr_swipe_threshold_counterexample:
  "TimeStampLastInterrupt (in_pattern 1 1 50000001)
     - TimeStampSwipeBegin (in_pattern 1 1 50000001) = 50000000
   \<and> SwipeThreholdReached (in_pattern 1 1 50000001) = FALSE
   \<and> NumberOfSwipes (in_pattern 1 1 50000001) = 0
   \<and> WpCrasherEvtInterruptIsr device_h 1 50000002 (in_pattern 1 1 50000001)
     = ((in_pattern 1 1 50000001)\<lparr>TimeStampLastInterrupt := 50000002,
                                   NumberOfSwipes := 1,
                                   SwipeThreholdReached := TRUE\<rparr>, [], Returned FALSE)"
proof -
  have "WpCrasherEvtInterruptIsr device_h 1 50000002 (in_pattern 1 1 50000001)
     = isr_swipe device_h 1 ((in_pattern 1 1 50000001)\<lparr>TimeStampLastInterrupt := 50000002\<rparr>)
         50000000"
    by (simp add: isr_same_swipe in_pattern_simps device_h_simps)
  also have "\<dots> = ((in_pattern 1 1 50000001)\<lparr>TimeStampLastInterrupt := 50000002,
                                   NumberOfSwipes := 1,
                                   SwipeThreholdReached := TRUE\<rparr>, [], Returned FALSE)"
    by (simp add: isr_swipe_counted isr_count_swipe_eq in_pattern_simps device_h_simps
        BOOLEAN_distinct)
  finally show ?thesis
    by (simp add: in_pattern_simps)
qed

section \<open>The interrupt service routine, call after call\<close>

lemma count_below_4:
  fixes c :: ULONG
  assumes "c < 4"
  shows "c + 1 \<le> 4" and "c + 1 \<noteq> 4 \<Longrightarrow> c + 1 < 4" and "c + 1 = 4 \<Longrightarrow> c = 3"
proof -
  have "unat c < 4" using assms by (simp add: word_less_nat_alt)
  then have u: "unat (c + 1) = unat c + 1"
    by (simp add: unat_word_ariths)
  show le: "c + 1 \<le> 4" using u \<open>unat c < 4\<close> by (simp add: word_le_nat_alt)
  show "c + 1 \<noteq> 4 \<Longrightarrow> c + 1 < 4"
    using le by (rule le_neq_trans)
  show "c = 3" if "c + 1 = 4"
  proof -
    from that have "c + 1 - 1 = 4 - 1" by simp
    then show ?thesis by simp
  qed
qed

lemma isr_step_cases:
  assumes n: "INPUT_PATTERN_NUM_OF_SWIPES cfg = 4"
    and inv: "swipes_inv d"
    and r: "WpCrasherEvtInterruptIsr cfg kd t d = (d', effs, c)"
  shows "(effs = [] \<and> c = Returned FALSE \<and> swipes_inv d' \<and>
            (NumberOfSwipes d' = 4 \<longrightarrow> NumberOfSwipes d = 4))
       \<or> (NumberOfSwipes d = 3 \<and> NumberOfSwipes d' = 4 \<and>
            TimeStampInputPatternBegin d \<noteq> 0 \<and>
            (if IS_DEBUGGER_ATTACHED kd = TRUE
             then effs = [DebugBreak] \<and> c = Returned FALSE
                  \<and> TimeStampInputPatternBegin d' = 0
             else effs = [KeBugCheckEx MANUALLY_INITIATED_CRASH 1 0 0 0]
                  \<and> c = NeverReturns
                  \<and> TimeStampInputPatternBegin d' = TimeStampInputPatternBegin d))"
proof (cases "TimeStampInputPatternBegin d = 0")
  case True
  show ?thesis
    using r inv unfolding isr_cold_start [OF True]
    by (auto simp add: swipes_inv_def)
next
  case False
  then have lt: "NumberOfSwipes d < 4"
    using inv by (simp add: swipes_inv_def)
  from isr_cases [OF False, of cfg kd t]
  show ?thesis
  proof (elim disjE exE conjE)
    fix d1
    assume "WpCrasherEvtInterruptIsr cfg kd t d = (d1, [], Returned FALSE)"
      "NumberOfSwipes d1 = NumberOfSwipes d"
    then show ?thesis
      using r lt by (auto simp add: swipes_inv_def)
  next
    fix d1
    assume a: "WpCrasherEvtInterruptIsr cfg kd t d = isr_count_swipe cfg kd d1"
      and b: "NumberOfSwipes d1 = NumberOfSwipes d"
      and e: "TimeStampInputPatternBegin d1 = TimeStampInputPatternBegin d"
    note p = count_below_4 [OF lt]
    have q: "isr_count_swipe cfg kd d1 = (d', effs, c)"
      using r a by simp
    show ?thesis
    proof (cases "NumberOfSwipes d + 1 = 4")
      case True
      show ?thesis
      proof (cases "IS_DEBUGGER_ATTACHED kd = TRUE")
        case t: True
        have "d' = d1\<lparr>NumberOfSwipes := 4, SwipeThreholdReached := TRUE,
                        TimeStampInputPatternBegin := 0\<rparr>" "effs = [DebugBreak]"
             "c = Returned FALSE"
          using q True t n b unfolding isr_count_swipe_eq by simp_all
        then show ?thesis
          using t False p(3) [OF True] by simp
      next
        case t: False
        have "d' = d1\<lparr>NumberOfSwipes := 4, SwipeThreholdReached := TRUE\<rparr>"
             "effs = [KeBugCheckEx MANUALLY_INITIATED_CRASH 1 0 0 0]"
             "c = NeverReturns"
          using q True t n b unfolding isr_count_swipe_eq by simp_all
        then show ?thesis
          using t False p(3) [OF True] e by simp
      qed
    next
      case f: False
      have "d' = d1\<lparr>NumberOfSwipes := NumberOfSwipes d + 1, SwipeThreholdReached := TRUE\<rparr>"
           "effs = []" "c = Returned FALSE"
        using q f n b unfolding isr_count_swipe_eq by simp_all
      then show ?thesis
        using False f p(2) [OF f] e by (simp add: swipes_inv_def)
    qed
  qed
qed

lemma swipes_inv_le: "swipes_inv d \<Longrightarrow> NumberOfSwipes d \<le> 4"
  by (auto simp add: swipes_inv_def split: if_splits)

lemma isr_run_inv:
  assumes n: "INPUT_PATTERN_NUM_OF_SWIPES cfg = 4"
  shows "swipes_inv d \<Longrightarrow> isr_run cfg evs d = (d', effs, c) \<Longrightarrow>
         NumberOfSwipes d' \<le> 4 \<and> (c = Returned () \<longrightarrow> swipes_inv d')"
proof (induction evs arbitrary: d effs)
  case Nil
  then show ?case by (simp add: swipes_inv_le)
next
  case (Cons ev evs)
  obtain t kd where ev: "ev = (t, kd)" by (cases ev)
  obtain d1 e1 c1 where r: "WpCrasherEvtInterruptIsr cfg kd t d = (d1, e1, c1)"
    by (cases "WpCrasherEvtInterruptIsr cfg kd t d")
  note st = isr_step_cases [OF n Cons.prems(1) r]
  show ?case
  proof (cases c1)
    case NeverReturns
    then have "d' = d1" "c = NeverReturns"
      using Cons.prems(2) ev r by simp_all
    moreover have "NumberOfSwipes d1 = 4"
      using st NeverReturns by auto
    ultimately show ?thesis by simp
  next
    case (Returned x)
    have i1: "swipes_inv d1"
      using st Returned by (auto simp add: swipes_inv_def split: if_splits)
    obtain d2 e2 c2 where r2: "isr_run cfg evs d1 = (d2, e2, c2)"
      by (cases "isr_run cfg evs d1")
    have "d' = d2" "c = c2"
      using Cons.prems(2) ev r r2 Returned by simp_all
    then have "isr_run cfg evs d1 = (d', e2, c)"
      using r2 by simp
    then show ?thesis
      by (rule Cons.IH [OF i1])
  qed
qed

lemma zero_inv: "swipes_inv zero_extension"
  by (simp add: swipes_inv_def zero_extension_def)

text \<open>
  C7, as amended. With \<open>INPUT_PATTERN_NUM_OF_SWIPES\<close> at 4, take any interrupts, at any
  times and with any debugger flags, handled one after the other from the
  zero-initialised device extension, each call returning, and then one more call.
  \<open>NumberOfSwipes\<close> is at most 4 before and after that call. If the call brings it to
  4, the call runs the bug check routine: with a debugger attached that is the
  breakpoint, the ISR then sets \<open>TimeStampInputPatternBegin\<close> to 0 and returns
  \<open>FALSE\<close>; with none attached it is \<open>KeBugCheckEx\<close>, the call never returns and the
  begin of the pattern is not cleared. Any other call makes no call into the kernel
  and returns \<open>FALSE\<close>.
\<close>

theorem isr_swipe_count_bounded:
  assumes "INPUT_PATTERN_NUM_OF_SWIPES cfg = 4"
    and "isr_run cfg evs zero_extension = (d, effs0, Returned ())"
    and "WpCrasherEvtInterruptIsr cfg kd t d = (d', effs, c)"
  shows "NumberOfSwipes d \<le> 4 \<and> NumberOfSwipes d' \<le> 4
       \<and> (if NumberOfSwipes d' = 4 \<and> NumberOfSwipes d \<noteq> 4
          then if IS_DEBUGGER_ATTACHED kd = TRUE
               then effs = [DebugBreak] \<and> c = Returned FALSE
                    \<and> TimeStampInputPatternBegin d' = 0
               else effs = [KeBugCheckEx MANUALLY_INITIATED_CRASH 1 0 0 0]
                    \<and> c = NeverReturns \<and> TimeStampInputPatternBegin d' \<noteq> 0
          else effs = [] \<and> c = Returned FALSE)"
proof -
  have i: "swipes_inv d"
    using isr_run_inv [OF assms(1) zero_inv assms(2)] by simp
  note st = isr_step_cases [OF assms(1) i assms(3)]
  have "NumberOfSwipes d' \<le> 4"
    using st by (auto simp add: swipes_inv_le)
  moreover have "(3 :: ULONG) \<noteq> 4" by simp
  ultimately show ?thesis
    using st swipes_inv_le [OF i] by (auto split: if_splits)
qed

theorem isr_swipe_count_bounded_witness:
  "NumberOfSwipes ((in_pattern 10000000 382000000 432000000)\<lparr>NumberOfSwipes := 3\<rparr>) \<le> 4
   \<and> WpCrasherEvtInterruptIsr device_h 0 434000000
       ((in_pattern 10000000 382000000 432000000)\<lparr>NumberOfSwipes := 3\<rparr>)
     = ((in_pattern 10000000 382000000 432000000)\<lparr>NumberOfSwipes := 4,
           TimeStampLastInterrupt := 434000000, SwipeThreholdReached := TRUE,
           TimeStampInputPatternBegin := 0\<rparr>, [DebugBreak], Returned FALSE)"
proof -
  have run: "isr_run device_h (interrupts 0 (take 110 four_long_swipes)) zero_extension
      = ((in_pattern 10000000 382000000 432000000)\<lparr>NumberOfSwipes := 3\<rparr>, [], Returned ())"
    by code_simp
  have call: "WpCrasherEvtInterruptIsr device_h 0 434000000
       ((in_pattern 10000000 382000000 432000000)\<lparr>NumberOfSwipes := 3\<rparr>)
     = ((in_pattern 10000000 382000000 432000000)\<lparr>NumberOfSwipes := 4,
           TimeStampLastInterrupt := 434000000, SwipeThreholdReached := TRUE,
           TimeStampInputPatternBegin := 0\<rparr>, [DebugBreak], Returned FALSE)"
    by code_simp
  show ?thesis
    using isr_swipe_count_bounded [OF device_h_simps(1) run call] call by simp
qed

text \<open>
  The claim as first stated, that the call which brings the count to 4 also resets the
  session, fails with no debugger attached. After the first 110 interrupts of the four
  long swipes three swipes are counted; the next interrupt counts the fourth, ends in
  the bug check and leaves the begin of the pattern at 10000000.
\<close>

theorem isr_swipe_count_bounded_counterexample:
  "isr_run device_h (interrupts 1 (take 110 four_long_swipes)) zero_extension
     = ((in_pattern 10000000 382000000 432000000)\<lparr>NumberOfSwipes := 3\<rparr>, [], Returned ())
   \<and> WpCrasherEvtInterruptIsr device_h 1 434000000
       ((in_pattern 10000000 382000000 432000000)\<lparr>NumberOfSwipes := 3\<rparr>)
     = ((in_pattern 10000000 382000000 434000000)\<lparr>NumberOfSwipes := 4,
           SwipeThreholdReached := TRUE\<rparr>,
        [KeBugCheckEx MANUALLY_INITIATED_CRASH 1 0 0 0], NeverReturns)
   \<and> TimeStampInputPatternBegin
       ((in_pattern 10000000 382000000 434000000)\<lparr>NumberOfSwipes := 4,
           SwipeThreholdReached := TRUE\<rparr>) = 10000000"
  by code_simp

section \<open>The pattern of four swipes\<close>

lemma gaps_within_last: "gaps_within g (x # ts) \<Longrightarrow> unat x \<le> unat (last (x # ts))"
proof (induction ts arbitrary: x)
  case Nil
  then show ?case by simp
next
  case (Cons t ts)
  then have "unat x \<le> unat t" "unat t \<le> unat (last (t # ts))"
    by simp_all
  then show ?case by simp
qed

lemma gaps_within_append:
  "gaps_within g (xs @ y # ys) \<Longrightarrow> gaps_within g (y # ys)"
proof (induction xs)
  case Nil
  then show ?case by simp
next
  case (Cons x xs)
  then show ?case by (cases xs) simp_all
qed

lemma gaps_within_append_le:
  "gaps_within g (x # xs @ y # ys) \<Longrightarrow> unat (last (x # xs)) \<le> unat y"
proof (induction xs arbitrary: x)
  case Nil
  then show ?case by simp
next
  case (Cons z zs)
  then show ?case by simp
qed

lemma unat_diff:
  fixes a b :: ULONGLONG
  shows "unat a \<le> unat b \<Longrightarrow> unat (b - a) = unat b - unat a"
  by (simp add: unat_sub word_le_nat_alt)

lemma step_same_swipe:
  assumes m: "macros_as_documented cfg"
    and "TimeStampInputPatternBegin d \<noteq> 0"
    and "unat (TimeStampInputPatternBegin d) \<le> unat t"
    and "unat t - unat (TimeStampInputPatternBegin d) \<le> 600000000"
    and "unat (TimeStampLastInterrupt d) \<le> unat t"
    and "unat t - unat (TimeStampLastInterrupt d) \<le> 2000000"
  shows "WpCrasherEvtInterruptIsr cfg kd t d
           = isr_swipe cfg kd (d\<lparr>TimeStampLastInterrupt := t\<rparr>)
               (TimeStampLastInterrupt d - TimeStampSwipeBegin d)"
proof (rule isr_same_swipe)
  show "TimeStampInputPatternBegin d \<noteq> 0" by fact
  show "t - TimeStampInputPatternBegin d \<le> INPUT_PATTERN_MAX_PERIOD cfg"
    using m assms(3,4) by (simp add: macros_as_documented_def word_le_nat_alt unat_diff)
  show "t - TimeStampLastInterrupt d \<le> SINGLE_SWIPE_MAX_INTERVAL cfg"
    using m assms(5,6) by (simp add: macros_as_documented_def word_le_nat_alt unat_diff)
qed

lemma step_quiet:
  assumes m: "macros_as_documented cfg"
    and "TimeStampInputPatternBegin d \<noteq> 0"
    and "unat (TimeStampInputPatternBegin d) \<le> unat t"
    and "unat t - unat (TimeStampInputPatternBegin d) \<le> 600000000"
    and "unat (TimeStampLastInterrupt d) \<le> unat t"
    and "unat t - unat (TimeStampLastInterrupt d) \<le> 2000000"
    and "unat (TimeStampSwipeBegin d) \<le> unat (TimeStampLastInterrupt d)"
    and "unat (TimeStampLastInterrupt d) - unat (TimeStampSwipeBegin d) \<le> 150000000"
    and "SwipeThreholdReached d = TRUE
         \<or> unat (TimeStampLastInterrupt d) - unat (TimeStampSwipeBegin d) < 50000000"
  shows "WpCrasherEvtInterruptIsr cfg kd t d
           = (d\<lparr>TimeStampLastInterrupt := t\<rparr>, [], Returned FALSE)"
proof -
  have "isr_swipe cfg kd (d\<lparr>TimeStampLastInterrupt := t\<rparr>)
               (TimeStampLastInterrupt d - TimeStampSwipeBegin d)
          = (d\<lparr>TimeStampLastInterrupt := t\<rparr>, [], Returned FALSE)"
  proof (rule isr_swipe_short)
    show "TimeStampLastInterrupt d - TimeStampSwipeBegin d < SINGLE_SWIPE_MIN_PERIOD cfg
          \<or> SwipeThreholdReached (d\<lparr>TimeStampLastInterrupt := t\<rparr>) = TRUE"
      using m assms(7,9) by (auto simp add: macros_as_documented_def word_less_nat_alt unat_diff)
    show "TimeStampLastInterrupt d - TimeStampSwipeBegin d \<le> SINGLE_SWIPE_MAX_PERIOD cfg"
      using m assms(7,8) by (simp add: macros_as_documented_def word_le_nat_alt unat_diff)
  qed
  then show ?thesis
    using step_same_swipe [OF assms(1-6)] by simp
qed

lemma step_counted:
  assumes m: "macros_as_documented cfg"
    and "TimeStampInputPatternBegin d \<noteq> 0"
    and "unat (TimeStampInputPatternBegin d) \<le> unat t"
    and "unat t - unat (TimeStampInputPatternBegin d) \<le> 600000000"
    and "unat (TimeStampLastInterrupt d) \<le> unat t"
    and "unat t - unat (TimeStampLastInterrupt d) \<le> 2000000"
    and "unat (TimeStampSwipeBegin d) \<le> unat (TimeStampLastInterrupt d)"
    and "unat (TimeStampLastInterrupt d) - unat (TimeStampSwipeBegin d) \<le> 150000000"
    and "SwipeThreholdReached d = FALSE"
    and "50000000 \<le> unat (TimeStampLastInterrupt d) - unat (TimeStampSwipeBegin d)"
  shows "WpCrasherEvtInterruptIsr cfg kd t d
           = isr_count_swipe cfg kd (d\<lparr>TimeStampLastInterrupt := t\<rparr>)"
proof -
  have "isr_swipe cfg kd (d\<lparr>TimeStampLastInterrupt := t\<rparr>)
               (TimeStampLastInterrupt d - TimeStampSwipeBegin d)
          = isr_count_swipe cfg kd (d\<lparr>TimeStampLastInterrupt := t\<rparr>)"
  proof (rule isr_swipe_counted)
    show "SINGLE_SWIPE_MIN_PERIOD cfg \<le> TimeStampLastInterrupt d - TimeStampSwipeBegin d"
      using m assms(7,10) by (simp add: macros_as_documented_def word_le_nat_alt unat_diff)
    show "TimeStampLastInterrupt d - TimeStampSwipeBegin d \<le> SINGLE_SWIPE_MAX_PERIOD cfg"
      using m assms(7,8) by (simp add: macros_as_documented_def word_le_nat_alt unat_diff)
    show "SwipeThreholdReached (d\<lparr>TimeStampLastInterrupt := t\<rparr>) \<noteq> TRUE"
      using assms(9) by (simp add: BOOLEAN_distinct)
  qed
  then show ?thesis
    using step_same_swipe [OF assms(1-6)] by simp
qed

lemma step_rest:
  assumes m: "macros_as_documented cfg"
    and "TimeStampInputPatternBegin d \<noteq> 0"
    and "unat (TimeStampInputPatternBegin d) \<le> unat t"
    and "unat t - unat (TimeStampInputPatternBegin d) \<le> 600000000"
    and "50000000 < unat t - unat (TimeStampLastInterrupt d)"
    and "unat t - unat (TimeStampLastInterrupt d) < 150000000"
  shows "WpCrasherEvtInterruptIsr cfg kd t d
           = (d\<lparr>TimeStampLastInterrupt := t, TimeStampSwipeBegin := t,
                 SwipeThreholdReached := FALSE\<rparr>, [], Returned FALSE)"
proof -
  have le: "unat (TimeStampLastInterrupt d) \<le> unat t"
    using assms(5) by simp
  have a: "\<not> t - TimeStampInputPatternBegin d > INPUT_PATTERN_MAX_PERIOD cfg"
    using m assms(3,4) by (simp add: macros_as_documented_def word_less_nat_alt unat_diff)
  have b: "t - TimeStampLastInterrupt d > SINGLE_SWIPE_MAX_INTERVAL cfg"
    using m le assms(5) by (simp add: macros_as_documented_def word_less_nat_alt unat_diff)
  have c: "\<not> t - TimeStampLastInterrupt d < SINGLE_SWIPE_MIN_PERIOD cfg"
          "\<not> t - TimeStampLastInterrupt d > SINGLE_SWIPE_MAX_PERIOD cfg"
    using m le assms(5,6) by (simp_all add: macros_as_documented_def word_less_nat_alt unat_diff)
  have e: "(0 :: ULONGLONG) < SINGLE_SWIPE_MIN_PERIOD cfg"
          "\<not> (0 :: ULONGLONG) > SINGLE_SWIPE_MAX_PERIOD cfg"
    using m by (simp_all add: macros_as_documented_def)
  show ?thesis
    using assms(2) a b c e
    by (simp add: WpCrasherEvtInterruptIsr_def Let_def isr_swipe_def isr_Exit_def)
qed

lemma interrupts_append: "interrupts kd (xs @ ys) = interrupts kd xs @ interrupts kd ys"
  by (induction xs) simp_all

lemma isr_run_append:
  "isr_run cfg evs d = (d1, e1, Returned ()) \<Longrightarrow>
   isr_run cfg (evs @ evs') d
     = (case isr_run cfg evs' d1 of (d2, e2, c) \<Rightarrow> (d2, e1 @ e2, c))"
proof (induction evs arbitrary: d e1)
  case Nil
  then show ?case by (simp split: prod.splits)
next
  case (Cons ev evs)
  obtain t kd where ev: "ev = (t, kd)" by (cases ev)
  obtain d0 e0 c0 where r: "WpCrasherEvtInterruptIsr cfg kd t d = (d0, e0, c0)"
    by (cases "WpCrasherEvtInterruptIsr cfg kd t d")
  obtain d2 e2 c2 where r2: "isr_run cfg evs d0 = (d2, e2, c2)"
    by (cases "isr_run cfg evs d0")
  have c0: "c0 \<noteq> NeverReturns"
    using Cons.prems ev r by auto
  then obtain x where x: "c0 = Returned x" by (cases c0) auto
  have eq: "d2 = d1" "e1 = e0 @ e2" "c2 = Returned ()"
    using Cons.prems ev r r2 x by simp_all
  have "isr_run cfg (evs @ evs') d0
     = (case isr_run cfg evs' d1 of (d3, e3, c) \<Rightarrow> (d3, e2 @ e3, c))"
    using r2 eq by (intro Cons.IH) simp
  then show ?case
    using ev r x eq by (simp split: prod.splits)
qed

lemma isr_run_append_interrupts:
  "isr_run cfg (interrupts kd xs) d = (d1, e1, Returned ()) \<Longrightarrow>
   isr_run cfg (interrupts kd (xs @ ys)) d
     = (case isr_run cfg (interrupts kd ys) d1 of (d2, e2, c) \<Rightarrow> (d2, e1 @ e2, c))"
  by (simp add: interrupts_append isr_run_append)

lemma before_last_two: "before_last [x, y] = x"
  by (simp add: before_last_def)

lemma run_quiet:
  assumes m: "macros_as_documented cfg"
  shows "TimeStampInputPatternBegin d \<noteq> 0 \<Longrightarrow>
    unat (TimeStampInputPatternBegin d) \<le> unat (TimeStampLastInterrupt d) \<Longrightarrow>
    unat (TimeStampSwipeBegin d) \<le> unat (TimeStampLastInterrupt d) \<Longrightarrow>
    gaps_within 2000000 (TimeStampLastInterrupt d # ts) \<Longrightarrow>
    unat (last (TimeStampLastInterrupt d # ts)) - unat (TimeStampInputPatternBegin d)
      \<le> 600000000 \<Longrightarrow>
    unat (last (TimeStampLastInterrupt d # ts)) - unat (TimeStampSwipeBegin d)
      \<le> 150000000 \<Longrightarrow>
    SwipeThreholdReached d = TRUE
      \<or> unat (last (TimeStampLastInterrupt d # ts)) - unat (TimeStampSwipeBegin d)
          < 50000000 \<Longrightarrow>
    isr_run cfg (interrupts kd ts) d
      = (d\<lparr>TimeStampLastInterrupt := last (TimeStampLastInterrupt d # ts)\<rparr>, [],
         Returned ())"
proof (induction ts arbitrary: d)
  case Nil
  then show ?case by simp
next
  case (Cons t ts)
  let ?d1 = "d\<lparr>TimeStampLastInterrupt := t\<rparr>"
  have g: "unat (TimeStampLastInterrupt d) \<le> unat t"
      "unat t - unat (TimeStampLastInterrupt d) \<le> 2000000"
      "gaps_within 2000000 (t # ts)"
    using Cons.prems(4) by simp_all
  have l: "unat t \<le> unat (last (t # ts))"
    using g(3) by (rule gaps_within_last)
  have st: "WpCrasherEvtInterruptIsr cfg kd t d = (?d1, [], Returned FALSE)"
    using m Cons.prems(1,2,3,5,6,7) g l
    by (intro step_quiet) auto
  have "isr_run cfg (interrupts kd ts) ?d1
          = (?d1\<lparr>TimeStampLastInterrupt := last (TimeStampLastInterrupt ?d1 # ts)\<rparr>, [],
             Returned ())"
    using Cons.prems g l by (intro Cons.IH) auto
  then show ?case
    using st by simp
qed

lemma run_counted:
  assumes m: "macros_as_documented cfg"
  shows "TimeStampInputPatternBegin d \<noteq> 0 \<Longrightarrow>
    unat (TimeStampInputPatternBegin d) \<le> unat (TimeStampLastInterrupt d) \<Longrightarrow>
    unat (TimeStampSwipeBegin d) \<le> unat (TimeStampLastInterrupt d) \<Longrightarrow>
    gaps_within 2000000 (TimeStampLastInterrupt d # ts) \<Longrightarrow>
    unat (last (TimeStampLastInterrupt d # ts)) - unat (TimeStampInputPatternBegin d)
      \<le> 600000000 \<Longrightarrow>
    unat (last (TimeStampLastInterrupt d # ts)) - unat (TimeStampSwipeBegin d)
      \<le> 150000000 \<Longrightarrow>
    SwipeThreholdReached d = FALSE \<Longrightarrow>
    ts \<noteq> [] \<Longrightarrow>
    50000000 \<le> unat (before_last (TimeStampLastInterrupt d # ts))
                  - unat (TimeStampSwipeBegin d) \<Longrightarrow>
    NumberOfSwipes d + 1 \<noteq> 4 \<Longrightarrow>
    isr_run cfg (interrupts kd ts) d
      = (d\<lparr>TimeStampLastInterrupt := last ts,
            NumberOfSwipes := NumberOfSwipes d + 1,
            SwipeThreholdReached := TRUE\<rparr>, [], Returned ())"
proof (induction ts arbitrary: d)
  case Nil
  then show ?case by simp
next
  case (Cons t ts)
  let ?d1 = "d\<lparr>TimeStampLastInterrupt := t\<rparr>"
  have g: "unat (TimeStampLastInterrupt d) \<le> unat t"
      "unat t - unat (TimeStampLastInterrupt d) \<le> 2000000"
      "gaps_within 2000000 (t # ts)"
    using Cons.prems(4) by simp_all
  have l: "unat t \<le> unat (last (t # ts))"
    using g(3) by (rule gaps_within_last)
  show ?case
  proof (cases "50000000 \<le> unat (TimeStampLastInterrupt d) - unat (TimeStampSwipeBegin d)")
    case True
    let ?d2 = "?d1\<lparr>NumberOfSwipes := NumberOfSwipes d + 1, SwipeThreholdReached := TRUE\<rparr>"
    have "WpCrasherEvtInterruptIsr cfg kd t d = isr_count_swipe cfg kd ?d1"
      using m Cons.prems(1,2,3,5,6,7) g l True
      by (intro step_counted) auto
    then have st: "WpCrasherEvtInterruptIsr cfg kd t d = (?d2, [], Returned FALSE)"
      using m Cons.prems(10) by (simp add: isr_count_swipe_eq macros_as_documented_def)
    have "isr_run cfg (interrupts kd ts) ?d2
          = (?d2\<lparr>TimeStampLastInterrupt := last (TimeStampLastInterrupt ?d2 # ts)\<rparr>, [],
             Returned ())"
      using Cons.prems g l by (intro run_quiet [OF m]) auto
    then show ?thesis
      using st by simp
  next
    case False
    then have ne: "ts \<noteq> []"
      using Cons.prems(9) by (auto simp add: before_last_two)
    have st: "WpCrasherEvtInterruptIsr cfg kd t d = (?d1, [], Returned FALSE)"
      using m Cons.prems(1,2,3,5,6,7) g l False
      by (intro step_quiet) auto
    obtain u us where ts: "ts = u # us"
      using ne by (cases ts) auto
    have bl: "before_last (TimeStampLastInterrupt d # t # ts) = before_last (t # ts)"
      using ts by (simp add: before_last_def)
    have "isr_run cfg (interrupts kd ts) ?d1
          = (?d1\<lparr>TimeStampLastInterrupt := last ts,
                  NumberOfSwipes := NumberOfSwipes ?d1 + 1,
                  SwipeThreholdReached := TRUE\<rparr>, [], Returned ())"
      using Cons.prems g l ne bl by (intro Cons.IH) auto
    then show ?thesis
      using st ne by simp
  qed
qed

lemma run_trigger:
  assumes m: "macros_as_documented cfg"
  shows "TimeStampInputPatternBegin d \<noteq> 0 \<Longrightarrow>
    unat (TimeStampInputPatternBegin d) \<le> unat (TimeStampLastInterrupt d) \<Longrightarrow>
    unat (TimeStampSwipeBegin d) \<le> unat (TimeStampLastInterrupt d) \<Longrightarrow>
    gaps_within 2000000 (TimeStampLastInterrupt d # ts) \<Longrightarrow>
    unat (last (TimeStampLastInterrupt d # ts)) - unat (TimeStampInputPatternBegin d)
      \<le> 600000000 \<Longrightarrow>
    unat (last (TimeStampLastInterrupt d # ts)) - unat (TimeStampSwipeBegin d)
      \<le> 150000000 \<Longrightarrow>
    SwipeThreholdReached d = FALSE \<Longrightarrow>
    ts \<noteq> [] \<Longrightarrow>
    50000000 \<le> unat (before_last (TimeStampLastInterrupt d # ts))
                  - unat (TimeStampSwipeBegin d) \<Longrightarrow>
    \<exists>pre t post.
      ts = pre @ t # post
      \<and> 50000000 \<le> unat (last (TimeStampLastInterrupt d # pre)) - unat (TimeStampSwipeBegin d)
      \<and> isr_run cfg (interrupts kd pre) d
          = (d\<lparr>TimeStampLastInterrupt := last (TimeStampLastInterrupt d # pre)\<rparr>, [],
             Returned ())
      \<and> WpCrasherEvtInterruptIsr cfg kd t
            (d\<lparr>TimeStampLastInterrupt := last (TimeStampLastInterrupt d # pre)\<rparr>)
          = isr_count_swipe cfg kd (d\<lparr>TimeStampLastInterrupt := t\<rparr>)"
proof (induction ts arbitrary: d)
  case Nil
  then show ?case by simp
next
  case (Cons t ts)
  let ?d1 = "d\<lparr>TimeStampLastInterrupt := t\<rparr>"
  have g: "unat (TimeStampLastInterrupt d) \<le> unat t"
      "unat t - unat (TimeStampLastInterrupt d) \<le> 2000000"
      "gaps_within 2000000 (t # ts)"
    using Cons.prems(4) by simp_all
  have l: "unat t \<le> unat (last (t # ts))"
    using g(3) by (rule gaps_within_last)
  show ?case
  proof (cases "50000000 \<le> unat (TimeStampLastInterrupt d) - unat (TimeStampSwipeBegin d)")
    case True
    have "WpCrasherEvtInterruptIsr cfg kd t d = isr_count_swipe cfg kd ?d1"
      using m Cons.prems(1,2,3,5,6,7) g l True
      by (intro step_counted) auto
    then have "t # ts = [] @ t # ts
      \<and> 50000000 \<le> unat (last (TimeStampLastInterrupt d # [])) - unat (TimeStampSwipeBegin d)
      \<and> isr_run cfg (interrupts kd []) d
          = (d\<lparr>TimeStampLastInterrupt := last (TimeStampLastInterrupt d # [])\<rparr>, [],
             Returned ())
      \<and> WpCrasherEvtInterruptIsr cfg kd t
            (d\<lparr>TimeStampLastInterrupt := last (TimeStampLastInterrupt d # [])\<rparr>)
          = isr_count_swipe cfg kd ?d1"
      using True by simp
    then show ?thesis by blast
  next
    case False
    then have ne: "ts \<noteq> []"
      using Cons.prems(9) by (auto simp add: before_last_two)
    have st: "WpCrasherEvtInterruptIsr cfg kd t d = (?d1, [], Returned FALSE)"
      using m Cons.prems(1,2,3,5,6,7) g l False
      by (intro step_quiet) auto
    obtain u us where ts: "ts = u # us"
      using ne by (cases ts) auto
    have bl: "before_last (TimeStampLastInterrupt d # t # ts) = before_last (t # ts)"
      using ts by (simp add: before_last_def)
    have "\<exists>pre t' post.
      ts = pre @ t' # post
      \<and> 50000000 \<le> unat (last (TimeStampLastInterrupt ?d1 # pre))
                      - unat (TimeStampSwipeBegin ?d1)
      \<and> isr_run cfg (interrupts kd pre) ?d1
          = (?d1\<lparr>TimeStampLastInterrupt := last (TimeStampLastInterrupt ?d1 # pre)\<rparr>, [],
             Returned ())
      \<and> WpCrasherEvtInterruptIsr cfg kd t'
            (?d1\<lparr>TimeStampLastInterrupt := last (TimeStampLastInterrupt ?d1 # pre)\<rparr>)
          = isr_count_swipe cfg kd (?d1\<lparr>TimeStampLastInterrupt := t'\<rparr>)"
      using Cons.prems g l ne bl by (intro Cons.IH) auto
    then obtain pre t' post where p: "ts = pre @ t' # post"
      "50000000 \<le> unat (last (t # pre)) - unat (TimeStampSwipeBegin d)"
      "isr_run cfg (interrupts kd pre) ?d1
          = (d\<lparr>TimeStampLastInterrupt := last (t # pre)\<rparr>, [], Returned ())"
      "WpCrasherEvtInterruptIsr cfg kd t' (d\<lparr>TimeStampLastInterrupt := last (t # pre)\<rparr>)
          = isr_count_swipe cfg kd (d\<lparr>TimeStampLastInterrupt := t'\<rparr>)"
      by auto
    have "t # ts = (t # pre) @ t' # post
      \<and> 50000000 \<le> unat (last (TimeStampLastInterrupt d # t # pre))
                      - unat (TimeStampSwipeBegin d)
      \<and> isr_run cfg (interrupts kd (t # pre)) d
          = (d\<lparr>TimeStampLastInterrupt := last (TimeStampLastInterrupt d # t # pre)\<rparr>, [],
             Returned ())
      \<and> WpCrasherEvtInterruptIsr cfg kd t'
            (d\<lparr>TimeStampLastInterrupt := last (TimeStampLastInterrupt d # t # pre)\<rparr>)
          = isr_count_swipe cfg kd (d\<lparr>TimeStampLastInterrupt := t'\<rparr>)"
      using p st by simp
    then show ?thesis by blast
  qed
qed

lemma swipe_Cons:
  assumes "swipe w"
  obtains e r where "w = e # r" "r \<noteq> []" "gaps_within 2000000 (e # r)"
    "unat e \<le> unat (last (e # r))" "unat (last (e # r)) - unat e < 100000000"
proof -
  obtain e r where w: "w = e # r"
    using assms by (cases w) (auto simp add: swipe_def)
  have "r \<noteq> []"
    using assms w by (auto simp add: swipe_def)
  moreover have g: "gaps_within 2000000 (e # r)"
    using assms w by (simp add: swipe_def)
  moreover have "unat e \<le> unat (last (e # r))"
    using g by (rule gaps_within_last)
  moreover have "unat (last (e # r)) - unat e < 100000000"
    using assms w by (simp add: swipe_def)
  ultimately show thesis
    using that w by blast
qed

lemma run_first_swipe:
  assumes m: "macros_as_documented cfg"
    and idle: "TimeStampInputPatternBegin d = 0"
    and pos: "0 < unat (hd w)"
    and sw: "swipe w"
    and th: "reaches_threshold w"
    and whole: "unat (last w) - unat (hd w) \<le> 600000000"
  shows "isr_run cfg (interrupts kd w) d
           = (d\<lparr>TimeStampInputPatternBegin := hd w, TimeStampSwipeBegin := hd w,
                 TimeStampLastInterrupt := last w, NumberOfSwipes := 1,
                 SwipeThreholdReached := TRUE\<rparr>, [], Returned ())"
proof -
  from sw obtain e r where w: "w = e # r" "r \<noteq> []" "gaps_within 2000000 (e # r)"
    "unat e \<le> unat (last (e # r))" "unat (last (e # r)) - unat e < 100000000"
    by (rule swipe_Cons)
  let ?d1 = "d\<lparr>TimeStampInputPatternBegin := e, TimeStampSwipeBegin := e,
                 TimeStampLastInterrupt := e, NumberOfSwipes := 0,
                 SwipeThreholdReached := FALSE\<rparr>"
  have e0: "e \<noteq> 0"
    using pos w(1) by auto
  have st: "WpCrasherEvtInterruptIsr cfg kd e d = (?d1, [], Returned FALSE)"
    using idle by (rule isr_cold_start)
  have "isr_run cfg (interrupts kd r) ?d1
      = (?d1\<lparr>TimeStampLastInterrupt := last r,
            NumberOfSwipes := NumberOfSwipes ?d1 + 1,
            SwipeThreholdReached := TRUE\<rparr>, [], Returned ())"
    using e0 w th whole by (intro run_counted [OF m]) (auto simp add: reaches_threshold_def)
  then show ?thesis
    using st w(1,2) by simp
qed

lemma run_next_swipe:
  assumes m: "macros_as_documented cfg"
    and b: "TimeStampInputPatternBegin d \<noteq> 0"
    and bl: "unat (TimeStampInputPatternBegin d) \<le> unat (TimeStampLastInterrupt d)"
    and rest: "50000000 < unat (hd w) - unat (TimeStampLastInterrupt d)"
      "unat (hd w) - unat (TimeStampLastInterrupt d) < 150000000"
    and sw: "swipe w"
    and th: "reaches_threshold w"
    and whole: "unat (last w) - unat (TimeStampInputPatternBegin d) \<le> 600000000"
    and n: "NumberOfSwipes d + 1 \<noteq> 4"
  shows "isr_run cfg (interrupts kd w) d
           = (d\<lparr>TimeStampSwipeBegin := hd w, TimeStampLastInterrupt := last w,
                 NumberOfSwipes := NumberOfSwipes d + 1,
                 SwipeThreholdReached := TRUE\<rparr>, [], Returned ())"
proof -
  from sw obtain e r where w: "w = e # r" "r \<noteq> []" "gaps_within 2000000 (e # r)"
    "unat e \<le> unat (last (e # r))" "unat (last (e # r)) - unat e < 100000000"
    by (rule swipe_Cons)
  let ?d1 = "d\<lparr>TimeStampLastInterrupt := e, TimeStampSwipeBegin := e,
                 SwipeThreholdReached := FALSE\<rparr>"
  have st: "WpCrasherEvtInterruptIsr cfg kd e d = (?d1, [], Returned FALSE)"
    using m b bl rest w whole by (intro step_rest) auto
  have "isr_run cfg (interrupts kd r) ?d1
      = (?d1\<lparr>TimeStampLastInterrupt := last r,
            NumberOfSwipes := NumberOfSwipes ?d1 + 1,
            SwipeThreholdReached := TRUE\<rparr>, [], Returned ())"
    using b bl rest w th whole n
    by (intro run_counted [OF m]) (auto simp add: reaches_threshold_def)
  then show ?thesis
    using st w(1,2) by simp
qed

lemma run_idle_short:
  assumes m: "macros_as_documented cfg"
    and idle: "TimeStampInputPatternBegin d = 0"
    and g: "gaps_within 2000000 ts"
    and short: "ts \<noteq> [] \<Longrightarrow> 0 < unat (hd ts) \<and> unat (last ts) - unat (hd ts) < 50000000"
  shows "snd (isr_run cfg (interrupts kd ts) d) = ([], Returned ())"
proof (cases ts)
  case Nil
  then show ?thesis by simp
next
  case (Cons u us)
  let ?d1 = "d\<lparr>TimeStampInputPatternBegin := u, TimeStampSwipeBegin := u,
                 TimeStampLastInterrupt := u, NumberOfSwipes := 0,
                 SwipeThreholdReached := FALSE\<rparr>"
  have u0: "u \<noteq> 0" and sh: "unat (last (u # us)) - unat u < 50000000"
    using short Cons by auto
  have st: "WpCrasherEvtInterruptIsr cfg kd u d = (?d1, [], Returned FALSE)"
    using idle by (rule isr_cold_start)
  have "isr_run cfg (interrupts kd us) ?d1
      = (?d1\<lparr>TimeStampLastInterrupt := last (TimeStampLastInterrupt ?d1 # us)\<rparr>, [],
         Returned ())"
    using u0 sh g Cons by (intro run_quiet [OF m]) auto
  then show ?thesis
    using st Cons by simp
qed

lemma run_last_swipe:
  assumes m: "macros_as_documented cfg"
    and b: "TimeStampInputPatternBegin d \<noteq> 0"
    and bl: "unat (TimeStampInputPatternBegin d) \<le> unat (TimeStampLastInterrupt d)"
    and rest: "50000000 < unat (hd w) - unat (TimeStampLastInterrupt d)"
      "unat (hd w) - unat (TimeStampLastInterrupt d) < 150000000"
    and sw: "swipe w"
    and th: "reaches_threshold w"
    and whole: "unat (last w) - unat (TimeStampInputPatternBegin d) \<le> 600000000"
    and n: "NumberOfSwipes d = 3"
  shows "\<exists>pre t post d3.
      w = pre @ t # post
      \<and> isr_run cfg (interrupts kd pre) d = (d3, [], Returned ())
      \<and> NumberOfSwipes d3 = 3
      \<and> TimeStampInputPatternBegin d3 = TimeStampInputPatternBegin d
      \<and> (if IS_DEBUGGER_ATTACHED kd = TRUE
         then WpCrasherEvtInterruptIsr cfg kd t d3
                = (d3\<lparr>TimeStampLastInterrupt := t, NumberOfSwipes := 4,
                       SwipeThreholdReached := TRUE, TimeStampInputPatternBegin := 0\<rparr>,
                   [DebugBreak], Returned FALSE)
              \<and> snd (isr_run cfg (interrupts kd post)
                       (d3\<lparr>TimeStampLastInterrupt := t, NumberOfSwipes := 4,
                           SwipeThreholdReached := TRUE, TimeStampInputPatternBegin := 0\<rparr>))
                = ([], Returned ())
         else WpCrasherEvtInterruptIsr cfg kd t d3
                = (d3\<lparr>TimeStampLastInterrupt := t, NumberOfSwipes := 4,
                       SwipeThreholdReached := TRUE\<rparr>,
                   [KeBugCheckEx MANUALLY_INITIATED_CRASH 1 0 0 0], NeverReturns))"
proof -
  from sw obtain e r where w: "w = e # r" "r \<noteq> []" "gaps_within 2000000 (e # r)"
    "unat e \<le> unat (last (e # r))" "unat (last (e # r)) - unat e < 100000000"
    by (rule swipe_Cons)
  let ?d1 = "d\<lparr>TimeStampLastInterrupt := e, TimeStampSwipeBegin := e,
                 SwipeThreholdReached := FALSE\<rparr>"
  have st: "WpCrasherEvtInterruptIsr cfg kd e d = (?d1, [], Returned FALSE)"
    using m b bl rest w whole by (intro step_rest) auto
  have "\<exists>pre t post.
      r = pre @ t # post
      \<and> 50000000 \<le> unat (last (TimeStampLastInterrupt ?d1 # pre))
                      - unat (TimeStampSwipeBegin ?d1)
      \<and> isr_run cfg (interrupts kd pre) ?d1
          = (?d1\<lparr>TimeStampLastInterrupt := last (TimeStampLastInterrupt ?d1 # pre)\<rparr>, [],
             Returned ())
      \<and> WpCrasherEvtInterruptIsr cfg kd t
            (?d1\<lparr>TimeStampLastInterrupt := last (TimeStampLastInterrupt ?d1 # pre)\<rparr>)
          = isr_count_swipe cfg kd (?d1\<lparr>TimeStampLastInterrupt := t\<rparr>)"
    using b bl rest w th whole
    by (intro run_trigger [OF m]) (auto simp add: reaches_threshold_def)
  then obtain pre t post where p: "r = pre @ t # post"
      "50000000 \<le> unat (last (e # pre)) - unat e"
      "isr_run cfg (interrupts kd pre) ?d1
          = (?d1\<lparr>TimeStampLastInterrupt := last (e # pre)\<rparr>, [], Returned ())"
      "WpCrasherEvtInterruptIsr cfg kd t (?d1\<lparr>TimeStampLastInterrupt := last (e # pre)\<rparr>)
          = isr_count_swipe cfg kd (?d1\<lparr>TimeStampLastInterrupt := t\<rparr>)"
    by auto
  let ?d3 = "?d1\<lparr>TimeStampLastInterrupt := last (e # pre)\<rparr>"
  let ?d4 = "?d3\<lparr>TimeStampLastInterrupt := t, NumberOfSwipes := 4,
                   SwipeThreholdReached := TRUE, TimeStampInputPatternBegin := 0\<rparr>"
  have n4: "INPUT_PATTERN_NUM_OF_SWIPES cfg = 4"
    using m by (simp add: macros_as_documented_def)
  have r1: "isr_run cfg (interrupts kd (e # pre)) d = (?d3, [], Returned ())"
    using st p(3) by simp
  have "gaps_within 2000000 (e # pre @ t # post)"
    using w(3) p(1) by simp
  then have le1: "unat (last (e # pre)) \<le> unat t"
    by (rule gaps_within_append_le)
  have gp: "gaps_within 2000000 (t # post)"
    using w(3) p(1) gaps_within_append [of 2000000 "e # pre" t post] by simp
  have post: "snd (isr_run cfg (interrupts kd post) ?d4) = ([], Returned ())"
  proof (rule run_idle_short [OF m])
    show "TimeStampInputPatternBegin ?d4 = 0" by simp
    show "gaps_within 2000000 post"
      using gp gaps_within_append [of 2000000 "[t]" "hd post" "tl post"]
      by (cases post) simp_all
    show "0 < unat (hd post) \<and> unat (last post) - unat (hd post) < 50000000"
      if ne: "post \<noteq> []"
    proof -
      obtain u us where u: "post = u # us"
        using ne by (cases post) auto
      have "unat t \<le> unat u"
        using gp u by simp
      moreover have "last (e # r) = last (u # us)"
        using p(1) u by simp
      ultimately show ?thesis
        using le1 p(2) w(5) u by auto
    qed
  qed
  have "w = (e # pre) @ t # post
      \<and> isr_run cfg (interrupts kd (e # pre)) d = (?d3, [], Returned ())
      \<and> NumberOfSwipes ?d3 = 3
      \<and> TimeStampInputPatternBegin ?d3 = TimeStampInputPatternBegin d
      \<and> (if IS_DEBUGGER_ATTACHED kd = TRUE
         then WpCrasherEvtInterruptIsr cfg kd t ?d3 = (?d4, [DebugBreak], Returned FALSE)
              \<and> snd (isr_run cfg (interrupts kd post) ?d4) = ([], Returned ())
         else WpCrasherEvtInterruptIsr cfg kd t ?d3
                = (?d3\<lparr>TimeStampLastInterrupt := t, NumberOfSwipes := 4,
                       SwipeThreholdReached := TRUE\<rparr>,
                   [KeBugCheckEx MANUALLY_INITIATED_CRASH 1 0 0 0], NeverReturns))"
    using w(1) p(1) r1 n p(4) n4 post by (simp add: isr_count_swipe_eq)
  then show ?thesis by blast
qed

text \<open>The two concrete patterns are patterns of four swipes.\<close>

lemma ticks_numeral:
  "ticks (numeral k) t step = t # ticks (pred_numeral k) (t + step) step"
  "ticks 1 t step = [t]"
  by (simp_all add: numeral_eq_Suc)

lemma four_long_swipes_pattern:
  "four_swipes (long_swipe 10000000) (long_swipe 134000000)
     (long_swipe 258000000) (long_swipe 382000000)"
  by (simp add: four_swipes_def swipe_def rest_between_def long_swipe_def ticks_numeral)

lemma four_short_swipes_pattern:
  "four_swipes (short_swipe 10000000) (short_swipe 130960000)
     (short_swipe 251920000) (short_swipe 372880000)"
  by (simp add: four_swipes_def swipe_def rest_between_def short_swipe_def ticks_numeral)

text \<open>
  C1, as amended. With the macros at 4 swipes, 60 s, 5 s, 15 s and 0.2 s, let the
  device be idle and let the interrupts form four swipes: times that are not 0 and do
  not decrease, each swipe spanning more than 5 s and less than 10 s with at most
  0.2 s between two of its interrupts, rests of more than 5 s and less than 15 s
  between the swipes, 60 s at most from the first interrupt to the last; and let the
  last interrupt but one of each swipe be 5 s or more after its first. Then there is
  one interrupt \<open>t\<close> of the fourth swipe such that:
  \<^item> the calls before \<open>t\<close> all return, make no call into the kernel and leave
    \<open>NumberOfSwipes\<close> at 3;
  \<^item> the call for \<open>t\<close> brings it to 4 and runs the bug check routine;
  \<^item> with a debugger attached that is the breakpoint, the ISR then sets
    \<open>TimeStampInputPatternBegin\<close> to 0 and returns \<open>FALSE\<close>, the calls for the rest of
    the swipe make no further call into the kernel, and the breakpoint is the one
    effect of the whole run;
  \<^item> with no debugger attached that is \<open>KeBugCheckEx\<close>, which never returns: it is the
    one effect of the run, and the begin of the pattern is not cleared.
\<close>

theorem isr_four_swipes:
  assumes m: "macros_as_documented cfg"
    and idle: "TimeStampInputPatternBegin d = 0"
    and v: "four_swipes w1 w2 w3 w4"
    and th: "reaches_threshold w1" "reaches_threshold w2" "reaches_threshold w3"
      "reaches_threshold w4"
  shows "\<exists>pre t post d3.
      w4 = pre @ t # post
      \<and> isr_run cfg (interrupts kd (w1 @ w2 @ w3 @ pre)) d = (d3, [], Returned ())
      \<and> NumberOfSwipes d3 = 3
      \<and> (if IS_DEBUGGER_ATTACHED kd = TRUE
         then WpCrasherEvtInterruptIsr cfg kd t d3
                = (d3\<lparr>TimeStampLastInterrupt := t, NumberOfSwipes := 4,
                       SwipeThreholdReached := TRUE, TimeStampInputPatternBegin := 0\<rparr>,
                   [DebugBreak], Returned FALSE)
              \<and> snd (isr_run cfg (interrupts kd post)
                       (d3\<lparr>TimeStampLastInterrupt := t, NumberOfSwipes := 4,
                           SwipeThreholdReached := TRUE, TimeStampInputPatternBegin := 0\<rparr>))
                = ([], Returned ())
              \<and> snd (isr_run cfg (interrupts kd (w1 @ w2 @ w3 @ w4)) d)
                = ([DebugBreak], Returned ())
         else WpCrasherEvtInterruptIsr cfg kd t d3
                = (d3\<lparr>TimeStampLastInterrupt := t, NumberOfSwipes := 4,
                       SwipeThreholdReached := TRUE\<rparr>,
                   [KeBugCheckEx MANUALLY_INITIATED_CRASH 1 0 0 0], NeverReturns)
              \<and> snd (isr_run cfg (interrupts kd (w1 @ w2 @ w3 @ w4)) d)
                = ([KeBugCheckEx MANUALLY_INITIATED_CRASH 1 0 0 0], NeverReturns))"
proof -
  have sw: "swipe w1" "swipe w2" "swipe w3" "swipe w4"
    using v by (simp_all add: four_swipes_def)
  have pos: "0 < unat (hd w1)"
    using v by (simp add: four_swipes_def)
  have span: "50000000 < unat (last w1) - unat (hd w1)" "unat (last w1) - unat (hd w1) < 100000000"
      "50000000 < unat (last w2) - unat (hd w2)" "50000000 < unat (last w3) - unat (hd w3)"
      "50000000 < unat (last w4) - unat (hd w4)"
    using sw by (simp_all add: swipe_def)
  have rest: "50000000 < unat (hd w2) - unat (last w1)" "unat (hd w2) - unat (last w1) < 150000000"
      "50000000 < unat (hd w3) - unat (last w2)" "unat (hd w3) - unat (last w2) < 150000000"
      "50000000 < unat (hd w4) - unat (last w3)" "unat (hd w4) - unat (last w3) < 150000000"
    using v by (simp_all add: four_swipes_def rest_between_def)
  have whole: "unat (last w4) - unat (hd w1) \<le> 600000000"
    using v by (simp add: four_swipes_def)
  have o1: "unat (hd w1) < unat (last w1)" using span(1) by simp
  have o2: "unat (last w1) < unat (hd w2)" using rest(1) by simp
  have o3: "unat (hd w2) < unat (last w2)" using span(3) by simp
  have o4: "unat (last w2) < unat (hd w3)" using rest(3) by simp
  have o5: "unat (hd w3) < unat (last w3)" using span(4) by simp
  have o6: "unat (last w3) < unat (hd w4)" using rest(5) by simp
  have o7: "unat (hd w4) < unat (last w4)" using span(5) by simp
  have w1: "unat (last w1) - unat (hd w1) \<le> 600000000"
    using span(2) by simp
  have w2: "unat (last w2) - unat (hd w1) \<le> 600000000"
    using whole o4 o5 o6 o7 by simp
  have w3: "unat (last w3) - unat (hd w1) \<le> 600000000"
    using whole o6 o7 by simp
  have b1: "unat (hd w1) \<le> unat (last w1)" using o1 by simp
  have b2: "unat (hd w1) \<le> unat (last w2)" using o1 o2 o3 by simp
  have b3: "unat (hd w1) \<le> unat (last w3)" using o1 o2 o3 o4 o5 by simp
  have h0: "hd w1 \<noteq> 0" using pos by auto
  let ?d1 = "d\<lparr>TimeStampInputPatternBegin := hd w1, TimeStampSwipeBegin := hd w1,
                 TimeStampLastInterrupt := last w1, NumberOfSwipes := 1,
                 SwipeThreholdReached := TRUE\<rparr>"
  let ?d2 = "?d1\<lparr>TimeStampSwipeBegin := hd w2, TimeStampLastInterrupt := last w2,
                 NumberOfSwipes := 2\<rparr>"
  let ?d3 = "?d2\<lparr>TimeStampSwipeBegin := hd w3, TimeStampLastInterrupt := last w3,
                 NumberOfSwipes := 3\<rparr>"
  have r1: "isr_run cfg (interrupts kd w1) d = (?d1, [], Returned ())"
    using m idle pos sw(1) th(1) w1 by (intro run_first_swipe) auto
  have "isr_run cfg (interrupts kd w2) ?d1
          = (?d1\<lparr>TimeStampSwipeBegin := hd w2, TimeStampLastInterrupt := last w2,
                 NumberOfSwipes := NumberOfSwipes ?d1 + 1,
                 SwipeThreholdReached := TRUE\<rparr>, [], Returned ())"
    using m h0 sw(2) th(2) rest(1,2) b1 w2 by (intro run_next_swipe) auto
  then have r2: "isr_run cfg (interrupts kd w2) ?d1 = (?d2, [], Returned ())"
    by simp
  have "isr_run cfg (interrupts kd w3) ?d2
          = (?d2\<lparr>TimeStampSwipeBegin := hd w3, TimeStampLastInterrupt := last w3,
                 NumberOfSwipes := NumberOfSwipes ?d2 + 1,
                 SwipeThreholdReached := TRUE\<rparr>, [], Returned ())"
    using m h0 sw(3) th(3) rest(3,4) b2 w3 by (intro run_next_swipe) auto
  then have r3: "isr_run cfg (interrupts kd w3) ?d2 = (?d3, [], Returned ())"
    by simp
  have "isr_run cfg (interrupts kd (w1 @ w2)) d = (?d2, [], Returned ())"
    unfolding isr_run_append_interrupts [OF r1, of w2] using r2 by simp
  then have "isr_run cfg (interrupts kd ((w1 @ w2) @ w3)) d = (?d3, [], Returned ())"
    using r3 by (simp only: isr_run_append_interrupts prod.case append_Nil)
  then have r123: "isr_run cfg (interrupts kd (w1 @ w2 @ w3)) d = (?d3, [], Returned ())"
    by simp
  have "\<exists>pre t post d4.
      w4 = pre @ t # post
      \<and> isr_run cfg (interrupts kd pre) ?d3 = (d4, [], Returned ())
      \<and> NumberOfSwipes d4 = 3
      \<and> TimeStampInputPatternBegin d4 = TimeStampInputPatternBegin ?d3
      \<and> (if IS_DEBUGGER_ATTACHED kd = TRUE
         then WpCrasherEvtInterruptIsr cfg kd t d4
                = (d4\<lparr>TimeStampLastInterrupt := t, NumberOfSwipes := 4,
                       SwipeThreholdReached := TRUE, TimeStampInputPatternBegin := 0\<rparr>,
                   [DebugBreak], Returned FALSE)
              \<and> snd (isr_run cfg (interrupts kd post)
                       (d4\<lparr>TimeStampLastInterrupt := t, NumberOfSwipes := 4,
                           SwipeThreholdReached := TRUE, TimeStampInputPatternBegin := 0\<rparr>))
                = ([], Returned ())
         else WpCrasherEvtInterruptIsr cfg kd t d4
                = (d4\<lparr>TimeStampLastInterrupt := t, NumberOfSwipes := 4,
                       SwipeThreholdReached := TRUE\<rparr>,
                   [KeBugCheckEx MANUALLY_INITIATED_CRASH 1 0 0 0], NeverReturns))"
    using m h0 sw(4) th(4) rest(5,6) b3 whole by (intro run_last_swipe) auto
  then obtain pre t post d4 where p: "w4 = pre @ t # post"
      "isr_run cfg (interrupts kd pre) ?d3 = (d4, [], Returned ())"
      "NumberOfSwipes d4 = 3"
      and q: "if IS_DEBUGGER_ATTACHED kd = TRUE
         then WpCrasherEvtInterruptIsr cfg kd t d4
                = (d4\<lparr>TimeStampLastInterrupt := t, NumberOfSwipes := 4,
                       SwipeThreholdReached := TRUE, TimeStampInputPatternBegin := 0\<rparr>,
                   [DebugBreak], Returned FALSE)
              \<and> snd (isr_run cfg (interrupts kd post)
                       (d4\<lparr>TimeStampLastInterrupt := t, NumberOfSwipes := 4,
                           SwipeThreholdReached := TRUE, TimeStampInputPatternBegin := 0\<rparr>))
                = ([], Returned ())
         else WpCrasherEvtInterruptIsr cfg kd t d4
                = (d4\<lparr>TimeStampLastInterrupt := t, NumberOfSwipes := 4,
                       SwipeThreholdReached := TRUE\<rparr>,
                   [KeBugCheckEx MANUALLY_INITIATED_CRASH 1 0 0 0], NeverReturns)"
    by blast
  have "isr_run cfg (interrupts kd ((w1 @ w2 @ w3) @ pre)) d = (d4, [], Returned ())"
    unfolding isr_run_append_interrupts [OF r123, of pre] using p(2) by simp
  then have r4: "isr_run cfg (interrupts kd (w1 @ w2 @ w3 @ pre)) d = (d4, [], Returned ())"
    by simp
  have all: "isr_run cfg (interrupts kd (w1 @ w2 @ w3 @ w4)) d
          = (case isr_run cfg (interrupts kd (t # post)) d4 of
               (d5, e5, c) \<Rightarrow> (d5, [] @ e5, c))"
    using isr_run_append_interrupts [OF r4, of "t # post"] p(1) by simp
  have "snd (isr_run cfg (interrupts kd (w1 @ w2 @ w3 @ w4)) d)
          = (if IS_DEBUGGER_ATTACHED kd = TRUE then ([DebugBreak], Returned ())
             else ([KeBugCheckEx MANUALLY_INITIATED_CRASH 1 0 0 0], NeverReturns))"
    unfolding all using q by (auto split: prod.splits)
  then show ?thesis
    using p(1,3) r4 q by (intro exI [of _ pre] exI [of _ t] exI [of _ post] exI [of _ d4]) auto
qed

theorem isr_four_swipes_witness:
  "snd (isr_run device_h (interrupts 0 four_long_swipes) zero_extension)
     = ([DebugBreak], Returned ())
   \<and> snd (isr_run device_h (interrupts 1 four_long_swipes) zero_extension)
     = ([KeBugCheckEx MANUALLY_INITIATED_CRASH 1 0 0 0], NeverReturns)"
proof -
  have m: "macros_as_documented device_h"
    by (simp add: macros_as_documented_def device_h_simps)
  have i: "TimeStampInputPatternBegin zero_extension = 0"
    by (simp add: zero_extension_def)
  have t: "reaches_threshold (long_swipe 10000000)" "reaches_threshold (long_swipe 134000000)"
      "reaches_threshold (long_swipe 258000000)" "reaches_threshold (long_swipe 382000000)"
    by (simp_all add: reaches_threshold_def before_last_def long_swipe_def ticks_numeral)
  have a: "IS_DEBUGGER_ATTACHED 0 = TRUE" "IS_DEBUGGER_ATTACHED 1 \<noteq> TRUE"
    by (simp_all add: IS_DEBUGGER_ATTACHED_def BOOLIFY_def TRUE_def FALSE_def)
  note w = isr_four_swipes [OF m i four_long_swipes_pattern t]
  have "snd (isr_run device_h (interrupts 0 four_long_swipes) zero_extension)
     = ([DebugBreak], Returned ())"
    using w [of 0] a(1) unfolding four_long_swipes_def by (elim exE conjE) simp
  moreover have "snd (isr_run device_h (interrupts 1 four_long_swipes) zero_extension)
     = ([KeBugCheckEx MANUALLY_INITIATED_CRASH 1 0 0 0], NeverReturns)"
    using w [of 1] a(2) unfolding four_long_swipes_def by (elim exE conjE) simp
  ultimately show ?thesis by simp
qed

text \<open>
  The claim as first stated fails twice. The four short swipes are a pattern as the
  claim asks for, each swipe 5.096 s long, yet no swipe is counted and the bug check
  routine is never called: the last interrupt of each swipe finds only 4.9 s
  measured. And the four long swipes with no debugger attached end in
  \<open>KeBugCheckEx\<close> with the begin of the pattern still at 10000000, not reset to 0.
\<close>

theorem isr_four_swipes_counterexample:
  "four_swipes (short_swipe 10000000) (short_swipe 130960000)
     (short_swipe 251920000) (short_swipe 372880000)
   \<and> isr_run device_h (interrupts 0 four_short_swipes) zero_extension
     = (in_pattern 10000000 372880000 423840000, [], Returned ())
   \<and> isr_run device_h (interrupts 1 four_short_swipes) zero_extension
     = (in_pattern 10000000 372880000 423840000, [], Returned ())
   \<and> four_swipes (long_swipe 10000000) (long_swipe 134000000)
       (long_swipe 258000000) (long_swipe 382000000)
   \<and> isr_run device_h (interrupts 1 four_long_swipes) zero_extension
     = ((in_pattern 10000000 382000000 434000000)\<lparr>NumberOfSwipes := 4,
           SwipeThreholdReached := TRUE\<rparr>,
        [KeBugCheckEx MANUALLY_INITIATED_CRASH 1 0 0 0], NeverReturns)"
proof -
  have "isr_run device_h (interrupts 0 four_short_swipes) zero_extension
     = (in_pattern 10000000 372880000 423840000, [], Returned ())"
    by code_simp
  moreover have "isr_run device_h (interrupts 1 four_short_swipes) zero_extension
     = (in_pattern 10000000 372880000 423840000, [], Returned ())"
    by code_simp
  moreover have "isr_run device_h (interrupts 1 four_long_swipes) zero_extension
     = ((in_pattern 10000000 382000000 434000000)\<lparr>NumberOfSwipes := 4,
           SwipeThreholdReached := TRUE\<rparr>,
        [KeBugCheckEx MANUALLY_INITIATED_CRASH 1 0 0 0], NeverReturns)"
    by code_simp
  ultimately show ?thesis
    using four_short_swipes_pattern four_long_swipes_pattern by simp
qed

section \<open>The Power-State Gate\<close>

text \<open>
  C10. A notification for any other setting than the monitor state returns
  \<open>STATUS_SUCCESS\<close>, leaves the device extension as it is and makes no call,
  whatever the value pointer, the value length and the context are: the GUID is
  compared before the parameters are checked.
\<close>

theorem power_other_setting_ignored:
  "SettingGuid \<noteq> GUID_MONITOR_POWER_ON \<Longrightarrow>
   WpCrasherOnPowerSettingsChange cfg SettingGuid Value ValueLength CbContext
     = (STATUS_SUCCESS, CbContext, [])"
  by (simp add: WpCrasherOnPowerSettingsChange_def)

theorem power_other_setting_ignored_witness:
  "WpCrasherOnPowerSettingsChange device_h 7 None 0 None = (STATUS_SUCCESS, None, [])
   \<and> WpCrasherOnPowerSettingsChange device_h 7 (Some 1) 3 (Some zero_extension)
       = (STATUS_SUCCESS, Some zero_extension, [])"
proof -
  have g: "(7 :: GUID) \<noteq> GUID_MONITOR_POWER_ON"
    by (simp add: GUID_MONITOR_POWER_ON_def)
  show ?thesis
    using power_other_setting_ignored [OF g, of device_h None 0 None]
      power_other_setting_ignored [OF g, of device_h "Some 1" 3 "Some zero_extension"]
    by simp
qed

text \<open>
  C4. For a notification of the monitor setting, the status is
  \<open>STATUS_INVALID_PARAMETER\<close> exactly when the value pointer is null, the value length
  is not \<open>sizeof(ULONG)\<close>, or the context is null; then no call is made and the device
  extension is as before. In every other case the status is \<open>STATUS_SUCCESS\<close>.
\<close>

theorem power_invalid_parameter:
  "(fst (WpCrasherOnPowerSettingsChange cfg GUID_MONITOR_POWER_ON Value ValueLength CbContext)
      = STATUS_INVALID_PARAMETER)
     = (Value = None \<or> ValueLength \<noteq> 4 \<or> CbContext = None)
   \<and> (if Value = None \<or> ValueLength \<noteq> 4 \<or> CbContext = None
      then WpCrasherOnPowerSettingsChange cfg GUID_MONITOR_POWER_ON Value ValueLength CbContext
             = (STATUS_INVALID_PARAMETER, CbContext, [])
      else fst (WpCrasherOnPowerSettingsChange cfg GUID_MONITOR_POWER_ON Value ValueLength
                  CbContext) = STATUS_SUCCESS)"
  by (simp add: WpCrasherOnPowerSettingsChange_def sizeof_ULONG_def STATUS_SUCCESS_def
      STATUS_INVALID_PARAMETER_def split: option.splits)

theorem power_invalid_parameter_witness:
  "WpCrasherOnPowerSettingsChange device_h GUID_MONITOR_POWER_ON None 4 (Some zero_extension)
     = (STATUS_INVALID_PARAMETER, Some zero_extension, [])
   \<and> fst (WpCrasherOnPowerSettingsChange device_h GUID_MONITOR_POWER_ON (Some 1) 4
            (Some zero_extension)) = STATUS_SUCCESS"
  using power_invalid_parameter [of device_h None 4 "Some zero_extension"]
    power_invalid_parameter [of device_h "Some 1" 4 "Some zero_extension"]
  by simp

text \<open>
  C5, as amended. Of two well-formed notifications in a row with the same monitor
  state, the second returns \<open>STATUS_SUCCESS\<close>, makes no call and leaves the device
  extension as the first left it. The two together make one call (activate for
  \<open>MONITOR_IS_ON\<close>, deactivate otherwise) when the state differs from
  \<open>LastProcessedMonitorState\<close> before the first, and none when it is equal.
\<close>

theorem power_same_state_twice:
  "\<exists>d1 effs1.
     WpCrasherOnPowerSettingsChange cfg GUID_MONITOR_POWER_ON (Some v) sizeof_ULONG (Some d)
       = (STATUS_SUCCESS, Some d1, effs1)
     \<and> WpCrasherOnPowerSettingsChange cfg GUID_MONITOR_POWER_ON (Some v) sizeof_ULONG (Some d1)
       = (STATUS_SUCCESS, Some d1, [])
     \<and> d1 = d\<lparr>LastProcessedMonitorState := v\<rparr>
     \<and> monitor_run cfg [v, v] d = (d1, effs1)
     \<and> effs1 = (if LastProcessedMonitorState d = v then []
                else if v = MONITOR_IS_ON cfg
                then [WdfInterruptReportActive (InterruptObject d)]
                else [WdfInterruptReportInactive (InterruptObject d)])"
  by (simp add: WpCrasherOnPowerSettingsChange_def)

theorem power_same_state_twice_witness:
  "monitor_run device_h [1, 1] zero_extension
     = (zero_extension\<lparr>LastProcessedMonitorState := 1\<rparr>, [WdfInterruptReportActive 0])"
  using power_same_state_twice [of device_h 1 zero_extension]
  by (simp add: device_h_def zero_extension_def)

text \<open>
  The claim as first stated, one call for every such pair, fails where the state has
  been processed before: after one notification of state 1, two more of state 1 make
  no call at all; nor do two notifications of state 0 to the zero-initialised device,
  whose \<open>LastProcessedMonitorState\<close> is 0.
\<close>

theorem power_same_state_twice_counterexample:
  "monitor_run device_h [1] zero_extension
     = (zero_extension\<lparr>LastProcessedMonitorState := 1\<rparr>, [WdfInterruptReportActive 0])
   \<and> monitor_run device_h [1, 1] (zero_extension\<lparr>LastProcessedMonitorState := 1\<rparr>)
     = (zero_extension\<lparr>LastProcessedMonitorState := 1\<rparr>, [])
   \<and> monitor_run device_h [0, 0] zero_extension = (zero_extension, [])"
  by (simp add: WpCrasherOnPowerSettingsChange_def device_h_def zero_extension_def)

end
